theory Spec2Isabelle
  imports Complex_Main "HOL-Library.Sublist"
begin

section \<open>JavaScript strings\<close>

text \<open>
  A JavaScript string is a sequence of UTF-16 code units and \<open>length\<close> counts code
  units. A string is modelled as the list of its code units, each an integer (from 0
  to 65535 in any real string; no proof needs the bounds). ASCII literals of the
  source are written \<open>js ''...''\<close>; other characters are given by their code units.
\<close>

type_synonym codeunit = int
type_synonym jsstr = "codeunit list"

definition js :: "string \<Rightarrow> jsstr" where
  "js s = map of_char s"

text \<open>The line break \<open>\n\<close>.\<close>

abbreviation nl :: codeunit where
  "nl \<equiv> 10"

text \<open>
  White space as \<open>String.prototype.trim\<close> and the regular-expression class \<open>\s\<close>
  see it: the WhiteSpace and LineTerminator code points.
\<close>

definition is_space :: "codeunit \<Rightarrow> bool" where
  "is_space c = (c \<in> set [9, 10, 11, 12, 13, 32, 160, 5760, 8232, 8233, 8239, 8287, 12288, 65279]
                 \<or> (8192 \<le> c \<and> c \<le> 8202))"

text \<open>Line terminators, as \<open>.\<close>, and \<open>^\<close> and \<open>$\<close> under the \<open>m\<close> flag, see them.\<close>

definition is_lt :: "codeunit \<Rightarrow> bool" where
  "is_lt c = (c = 10 \<or> c = 13 \<or> c = 8232 \<or> c = 8233)"

definition is_digit :: "codeunit \<Rightarrow> bool" where
  "is_digit c = (48 \<le> c \<and> c \<le> 57)"

text \<open>The class \<open>\w\<close>: ASCII letters, digits and the underscore.\<close>

definition is_word :: "codeunit \<Rightarrow> bool" where
  "is_word c = ((97 \<le> c \<and> c \<le> 122) \<or> (65 \<le> c \<and> c \<le> 90) \<or> is_digit c \<or> c = 95)"

definition trim :: "jsstr \<Rightarrow> jsstr" where
  "trim s = rev (dropWhile is_space (rev (dropWhile is_space s)))"

text \<open>\<open>s.substring(a, b)\<close>: both indices are clamped to the string, and swapped when
  \<open>a > b\<close>. \<open>s.substring(a)\<close> is \<open>s.substring(a, s.length)\<close>.\<close>

definition substring :: "jsstr \<Rightarrow> int \<Rightarrow> int \<Rightarrow> jsstr" where
  "substring s a b =
     (let len = int (length s);
          a' = min (max a 0) len;
          b' = min (max b 0) len;
          from = min a' b';
          to = max a' b'
      in take (nat (to - from)) (drop (nat from) s))"

definition substring_from :: "jsstr \<Rightarrow> int \<Rightarrow> jsstr" where
  "substring_from s a = substring s a (int (length s))"

text \<open>\<open>s.lastIndexOf(c, fromIndex)\<close> for a one-character search string \<open>c\<close>: the largest
  index \<open>i \<le> fromIndex\<close> with \<open>s[i] = c\<close>, or \<open>-1\<close>. The search runs downwards.\<close>

fun lastIndexOf :: "jsstr \<Rightarrow> codeunit \<Rightarrow> nat \<Rightarrow> int" where
  "lastIndexOf s c 0 = (if 0 < length s \<and> s ! 0 = c then 0 else -1)"
| "lastIndexOf s c (Suc i) =
     (if Suc i < length s \<and> s ! Suc i = c then int (Suc i) else lastIndexOf s c i)"

text \<open>\<open>s.includes(t)\<close>: \<open>t\<close> occurs in \<open>s\<close> as a contiguous substring.\<close>

fun starts_with :: "jsstr \<Rightarrow> jsstr \<Rightarrow> bool" where
  "starts_with s [] = True"
| "starts_with [] (y # ys) = False"
| "starts_with (x # xs) (y # ys) = (x = y \<and> starts_with xs ys)"

fun includes_str :: "jsstr \<Rightarrow> jsstr \<Rightarrow> bool" where
  "includes_str [] t = starts_with [] t"
| "includes_str (x # xs) t = (starts_with (x # xs) t \<or> includes_str xs t)"

section \<open>Regular expressions\<close>

text \<open>
  The regular expressions of the source are kept as syntax trees and run by a
  backtracking matcher in the style of the ECMAScript specification. A matcher state is
  the input before the current position (reversed, nearest character first), the input
  from the current position on, and the captures made so far (latest first). \<open>ms e st\<close>
  lists the states in which a match of \<open>e\<close> started in \<open>st\<close> can end, in the order in
  which backtracking tries them; the first is the one a match uses.

  \<open>Star True e\<close> is the greedy \<open>e*\<close> and \<open>Star False e\<close> the lazy \<open>e*?\<close>; as in
  ECMAScript an iteration that consumes nothing is not taken. \<open>Bol m\<close> and \<open>Eol m\<close>
  are \<open>^\<close> and \<open>$\<close>, \<open>m\<close> telling whether the \<open>m\<close> flag is set. \<open>NotAhead e\<close> is
  \<open>(?!e)\<close>. \<open>NotBehind P\<close> is \<open>(?<!c)\<close> for a single character class \<open>c\<close>, the only
  look-behind the source uses.
\<close>

datatype re =
    Eps
  | Chr "codeunit \<Rightarrow> bool"
  | Seq re re
  | Alt re re
  | Star bool re
  | Group nat re
  | Bol bool
  | Eol bool
  | NotAhead re
  | NotBehind "codeunit \<Rightarrow> bool"

type_synonym caps = "(nat \<times> jsstr) list"
type_synonym mstate = "jsstr \<times> jsstr \<times> caps"

function ms :: "re \<Rightarrow> mstate \<Rightarrow> mstate list" where
  "ms Eps st = [st]"
| "ms (Chr P) (p, r, c) =
     (case r of [] \<Rightarrow> [] | x # xs \<Rightarrow> if P x then [(x # p, xs, c)] else [])"
| "ms (Seq a b) st = concat (map (ms b) (ms a st))"
| "ms (Alt a b) st = ms a st @ ms b st"
| "ms (Star g a) (p, r, c) =
     (let more = concat (map (ms (Star g a))
                   (filter (\<lambda>st'. length (fst (snd st')) < length r) (ms a (p, r, c))))
      in if g then more @ [(p, r, c)] else (p, r, c) # more)"
| "ms (Group n a) (p, r, c) =
     map (\<lambda>(p', r', c'). (p', r', (n, rev (take (length p' - length p) p')) # c'))
       (ms a (p, r, c))"
| "ms (Bol m) (p, r, c) =
     (case p of [] \<Rightarrow> [(p, r, c)] | x # _ \<Rightarrow> if m \<and> is_lt x then [(p, r, c)] else [])"
| "ms (Eol m) (p, r, c) =
     (case r of [] \<Rightarrow> [(p, r, c)] | x # _ \<Rightarrow> if m \<and> is_lt x then [(p, r, c)] else [])"
| "ms (NotAhead a) st = (if ms a st = [] then [st] else [])"
| "ms (NotBehind P) (p, r, c) =
     (case p of [] \<Rightarrow> [(p, r, c)] | x # _ \<Rightarrow> if P x then [] else [(p, r, c)])"
  by pat_completeness auto
termination
  by (relation "measures [\<lambda>(e, st). size e, \<lambda>(e, st). length (fst (snd st))]") auto

text \<open>Derived forms: a literal character, a literal string, \<open>e+\<close>, \<open>e+?\<close>, \<open>e?\<close>,
  \<open>e{n,}\<close> and \<open>e{n,m}\<close> (greedy).\<close>

definition Lit :: "codeunit \<Rightarrow> re" where
  "Lit c = Chr (\<lambda>x. x = c)"

fun Seqs :: "re list \<Rightarrow> re" where
  "Seqs [] = Eps"
| "Seqs [e] = e"
| "Seqs (e # es) = Seq e (Seqs es)"

definition Plus :: "bool \<Rightarrow> re \<Rightarrow> re" where
  "Plus g e = Seq e (Star g e)"

definition Opt :: "re \<Rightarrow> re" where
  "Opt e = Alt e Eps"

fun AtLeast :: "nat \<Rightarrow> re \<Rightarrow> re" where
  "AtLeast 0 e = Star True e"
| "AtLeast (Suc n) e = Seq e (AtLeast n e)"

fun UpTo :: "nat \<Rightarrow> re \<Rightarrow> re" where
  "UpTo 0 e = Eps"
| "UpTo (Suc n) e = Opt (Seq e (UpTo n e))"

fun Between :: "nat \<Rightarrow> nat \<Rightarrow> re \<Rightarrow> re" where
  "Between 0 m e = UpTo m e"
| "Between (Suc n) m e = Seq e (Between n (m - 1) e)"

text \<open>The text of capture group \<open>n\<close> (\<open>$n\<close> in a replacement); empty when the group
  took no part in the match.\<close>

definition grp :: "caps \<Rightarrow> nat \<Rightarrow> jsstr" where
  "grp c n = (case map_of c n of None \<Rightarrow> [] | Some s \<Rightarrow> s)"

text \<open>
  \<open>s.replace(e, f)\<close> for \<open>e\<close> with the \<open>g\<close> flag: matches are looked for from left to
  right, each search starting where the previous match ended (one character further
  after an empty match); the text between matches is kept. Called with the empty
  prefix and the whole string.
\<close>

function replace_g :: "re \<Rightarrow> (caps \<Rightarrow> jsstr) \<Rightarrow> jsstr \<Rightarrow> jsstr \<Rightarrow> jsstr" where
  "replace_g e f p r =
     (case ms e (p, r, []) of
        [] \<Rightarrow> (case r of [] \<Rightarrow> [] | x # xs \<Rightarrow> x # replace_g e f (x # p) xs)
      | (p', r', c) # _ \<Rightarrow>
          if length r' < length r then f c @ replace_g e f p' r'
          else f c @ (case r of [] \<Rightarrow> [] | x # xs \<Rightarrow> x # replace_g e f (x # p) xs))"
  by pat_completeness auto
termination
  by (relation "measure (\<lambda>(e, f, p, r). length r)") auto

declare replace_g.simps [simp del]

text \<open>\<open>s.replace(e, f)\<close> for \<open>e\<close> without the \<open>g\<close> flag: only the first match is
  replaced.\<close>

fun replace_first :: "re \<Rightarrow> (caps \<Rightarrow> jsstr) \<Rightarrow> jsstr \<Rightarrow> jsstr \<Rightarrow> jsstr" where
  "replace_first e f p r =
     (case ms e (p, r, []) of
        (p', r', c) # _ \<Rightarrow> f c @ r'
      | [] \<Rightarrow> (case r of [] \<Rightarrow> [] | x # xs \<Rightarrow> x # replace_first e f (x # p) xs))"

declare replace_first.simps [simp del]

text \<open>\<open>e.test(s)\<close>: some position of \<open>s\<close> starts a match.\<close>

fun re_test :: "re \<Rightarrow> jsstr \<Rightarrow> jsstr \<Rightarrow> bool" where
  "re_test e p r =
     (ms e (p, r, []) \<noteq> [] \<or> (case r of [] \<Rightarrow> False | x # xs \<Rightarrow> re_test e (x # p) xs))"

declare re_test.simps [simp del]

section \<open>The chunker: \<open>splitMessage\<close>\<close>

text \<open>
  The loop of \<open>splitMessage\<close> need not end (it does not when \<open>maxLen\<close> is 0 and the
  remaining text starts with no line break), so it is a partial function: \<open>None\<close> is
  a run that never returns. The test \<open>splitIdx < maxLen * 0.3\<close> is written over the
  integers as \<open>10 * splitIdx < 3 * maxLen\<close>. The maximum length is a natural number.
\<close>

definition re_leading_nl :: re where
  "re_leading_nl = Seq (Bol False) (Lit nl)"

partial_function (option) splitLoop :: "nat \<Rightarrow> jsstr \<Rightarrow> jsstr list \<Rightarrow> jsstr list option" where
  "splitLoop maxLen remaining chunks =
     (if length remaining > 0 then
        (if length remaining \<le> maxLen then Some (chunks @ [remaining])
         else
           let idx = lastIndexOf remaining nl maxLen;
               splitIdx = (if 10 * idx < 3 * int maxLen then int maxLen else idx)
           in splitLoop maxLen
                (replace_first re_leading_nl (\<lambda>_. []) [] (substring_from remaining splitIdx))
                (chunks @ [substring remaining 0 splitIdx]))
      else Some chunks)"

definition splitMessage :: "jsstr \<Rightarrow> nat \<Rightarrow> jsstr list option" where
  "splitMessage text maxLen =
     (if length text \<le> maxLen then Some [text] else splitLoop maxLen text [])"

declare splitLoop.simps [code]

text \<open>
  Putting segments back together. A split consumes a line break exactly when the text
  left after the segment starts with one (the \<open>replace(/^\\n/, "")\<close> of the source);
  \<open>breaks t chunks\<close> walks the text \<open>t\<close> along the segments and gives, for each
  segment, whether a line break follows it in \<open>t\<close>. \<open>reassemble chunks flags\<close>
  concatenates the segments, with one line break after each segment whose flag is set.
\<close>

fun breaks :: "jsstr \<Rightarrow> jsstr list \<Rightarrow> bool list" where
  "breaks t [] = []"
| "breaks t (c # cs) =
     (case drop (length c) t of
        [] \<Rightarrow> False # breaks [] cs
      | x # xs \<Rightarrow> if x = nl then True # breaks xs cs else False # breaks (x # xs) cs)"

fun reassemble :: "jsstr list \<Rightarrow> bool list \<Rightarrow> jsstr" where
  "reassemble [] bs = []"
| "reassemble (c # cs) [] = c @ reassemble cs []"
| "reassemble (c # cs) (b # bs) = c @ (if b then [nl] else []) @ reassemble cs bs"

text \<open>Names for the parts of one pass of the loop: the index at which it splits, and
  the text it goes on with.\<close>

definition splitIdx_of :: "nat \<Rightarrow> jsstr \<Rightarrow> int" where
  "splitIdx_of maxLen remaining =
     (let idx = lastIndexOf remaining nl maxLen
      in if 10 * idx < 3 * int maxLen then int maxLen else idx)"

definition after_split :: "nat \<Rightarrow> jsstr \<Rightarrow> jsstr" where
  "after_split k s = (case drop k s of [] \<Rightarrow> [] | x # xs \<Rightarrow> if x = nl then xs else x # xs)"

text \<open>What the segments \<open>out\<close> cut from the text \<open>t\<close> satisfy.\<close>

definition seg_ok :: "nat \<Rightarrow> jsstr \<Rightarrow> jsstr list \<Rightarrow> bool" where
  "seg_ok L t out =
     ((\<forall>c \<in> set out. length c \<le> L) \<and> reassemble out (breaks t out) = t
       \<and> subseq (concat out) t)"

text \<open>
  Segments in their original order: \<open>placed_at t cs offs\<close> says that the segments \<open>cs\<close>
  are pieces of the text \<open>t\<close>, the \<open>i\<close>-th one lying at offset \<open>offs ! i\<close>, and that each
  segment ends before the next one starts.
\<close>

definition placed_at :: "jsstr \<Rightarrow> jsstr list \<Rightarrow> nat list \<Rightarrow> bool" where
  "placed_at t cs offs =
     (length offs = length cs
      \<and> list_all (\<lambda>i. offs ! i + length (cs ! i) \<le> length t
                       \<and> take (length (cs ! i)) (drop (offs ! i) t) = cs ! i) [0..<length cs]
      \<and> list_all (\<lambda>i. offs ! i + length (cs ! i) \<le> offs ! Suc i) [0..<length cs - 1])"

section \<open>The formatter: \<open>mdToTelegramHtml\<close>\<close>

text \<open>The character classes of the formatter's expressions: \<open>.\<close> is any character
  but a line terminator.\<close>

definition dot :: "codeunit \<Rightarrow> bool" where
  "dot c = (\<not> is_lt c)"

text \<open>\<open>/^#{1,6}\\s+(.+)$/gm\<close>\<close>

definition re_header :: re where
  "re_header = Seqs [Bol True, Between 1 6 (Lit 35), Plus True (Chr is_space),
                     Group 1 (Plus True (Chr dot)), Eol True]"

text \<open>\<open>/\\*\\*(.+?)\\*\\*/g\<close> and \<open>/__(.+?)__/g\<close>\<close>

definition re_bold_star :: re where
  "re_bold_star = Seqs [Lit 42, Lit 42, Group 1 (Plus False (Chr dot)), Lit 42, Lit 42]"

definition re_bold_under :: re where
  "re_bold_under = Seqs [Lit 95, Lit 95, Group 1 (Plus False (Chr dot)), Lit 95, Lit 95]"

text \<open>\<open>/(?<!\\w)\\*([^*\\n]+?)\\*(?!\\w)/g\<close> and \<open>/(?<!\\w)_([^_\\n]+?)_(?!\\w)/g\<close>\<close>

definition re_italic_star :: re where
  "re_italic_star = Seqs [NotBehind is_word, Lit 42,
                          Group 1 (Plus False (Chr (\<lambda>c. c \<noteq> 42 \<and> c \<noteq> nl))),
                          Lit 42, NotAhead (Chr is_word)]"

definition re_italic_under :: re where
  "re_italic_under = Seqs [NotBehind is_word, Lit 95,
                           Group 1 (Plus False (Chr (\<lambda>c. c \<noteq> 95 \<and> c \<noteq> nl))),
                           Lit 95, NotAhead (Chr is_word)]"

text \<open>\<open>/`([^`\\n]+?)`/g\<close>\<close>

definition re_inline_code :: re where
  "re_inline_code = Seqs [Lit 96, Group 1 (Plus False (Chr (\<lambda>c. c \<noteq> 96 \<and> c \<noteq> nl))), Lit 96]"

text \<open>\<open>/```[\\w]*\\n?([\\s\\S]*?)```/g\<close>\<close>

definition re_code_block :: re where
  "re_code_block = Seqs [Lit 96, Lit 96, Lit 96, Star True (Chr is_word), Opt (Lit nl),
                         Group 1 (Star False (Chr (\<lambda>c. True))), Lit 96, Lit 96, Lit 96]"

text \<open>\<open>/~~(.+?)~~/g\<close>\<close>

definition re_strike :: re where
  "re_strike = Seqs [Lit 126, Lit 126, Group 1 (Plus False (Chr dot)), Lit 126, Lit 126]"

text \<open>\<open>/\\[([^\\]]+)\\]\\(([^)]+)\\)/g\<close>; the code unit 34 is the double quote of the
  replacement \<open><a href="$2">$1</a>\<close>.\<close>

definition re_link :: re where
  "re_link = Seqs [Lit 91, Group 1 (Plus True (Chr (\<lambda>c. c \<noteq> 93))), Lit 93,
                   Lit 40, Group 2 (Plus True (Chr (\<lambda>c. c \<noteq> 41))), Lit 41]"

text \<open>\<open>/^[-*]{3,}$/gm\<close>\<close>

definition re_rule :: re where
  "re_rule = Seqs [Bol True, AtLeast 3 (Chr (\<lambda>c. c = 45 \<or> c = 42)), Eol True]"

text \<open>\<open>/^[\\s]*[-*+]\\s+/gm\<close>\<close>

definition re_bullet :: re where
  "re_bullet = Seqs [Bol True, Star True (Chr is_space),
                     Chr (\<lambda>c. c = 45 \<or> c = 42 \<or> c = 43), Plus True (Chr is_space)]"

text \<open>\<open>/^[\\s]*\\d+\\.\\s+/gm\<close>\<close>

definition re_numbered :: re where
  "re_numbered = Seqs [Bol True, Star True (Chr is_space), Plus True (Chr is_digit), Lit 46,
                       Plus True (Chr is_space)]"

text \<open>\<open>/\\n{3,}/g\<close>\<close>

definition re_newlines :: re where
  "re_newlines = AtLeast 3 (Lit nl)"

text \<open>The bullet that replaces a list marker, as the source file has it: two spaces,
  the code units U+00E2, U+20AC, U+00A2, and a space.\<close>

definition bullet :: jsstr where
  "bullet = [32, 32, 226, 8364, 162, 32]"

definition mdToTelegramHtml :: "jsstr \<Rightarrow> jsstr" where
  "mdToTelegramHtml text =
     (if text = [] then []
      else
        let result = text;
            result = replace_g re_header (\<lambda>c. js ''<b>'' @ grp c 1 @ js ''</b>'') [] result;
            result = replace_g re_bold_star (\<lambda>c. js ''<b>'' @ grp c 1 @ js ''</b>'') [] result;
            result = replace_g re_bold_under (\<lambda>c. js ''<b>'' @ grp c 1 @ js ''</b>'') [] result;
            result = replace_g re_italic_star (\<lambda>c. js ''<i>'' @ grp c 1 @ js ''</i>'') [] result;
            result = replace_g re_italic_under (\<lambda>c. js ''<i>'' @ grp c 1 @ js ''</i>'') [] result;
            result = replace_g re_inline_code (\<lambda>c. js ''<code>'' @ grp c 1 @ js ''</code>'') [] result;
            result = replace_g re_code_block (\<lambda>c. js ''<pre>'' @ grp c 1 @ js ''</pre>'') [] result;
            result = replace_g re_strike (\<lambda>c. js ''<s>'' @ grp c 1 @ js ''</s>'') [] result;
            result = replace_g re_link
                       (\<lambda>c. js ''<a href='' @ [34] @ grp c 2 @ [34] @ js ''>'' @ grp c 1 @ js ''</a>'')
                       [] result;
            result = replace_g re_rule (\<lambda>c. []) [] result;
            result = replace_g re_bullet (\<lambda>c. bullet) [] result;
            result = replace_g re_numbered (\<lambda>c. js ''  '') [] result;
            result = replace_g re_newlines (\<lambda>c. [nl, nl]) [] result
        in trim result)"

text \<open>
  A sufficient condition on the characters of a text, used to show that texts without
  markup are plentiful. \<open>no_delims\<close>: none of the delimiters \<open>*\<close>, \<open>_\<close>, \<open>~\<close>, the backtick
  and \<open>[\<close> occurs. \<open>no_line_markers\<close> reads the text from left to right and keeps where it
  is in the line: \<open>AtStart\<close> when only white space separates it from the start of a
  line, \<open>InDigits\<close> in a run of digits that began there, \<open>Inside\<close> otherwise; no line
  starts, after optional white space, with \<open>#\<close>, \<open>-\<close> or \<open>+\<close>, or with digits followed by
  a full stop.
\<close>

definition no_delims :: "jsstr \<Rightarrow> bool" where
  "no_delims t = list_all (\<lambda>c. c \<noteq> 42 \<and> c \<noteq> 95 \<and> c \<noteq> 126 \<and> c \<noteq> 96 \<and> c \<noteq> 91) t"

datatype lstate = AtStart | InDigits | Inside

fun lnext :: "lstate \<Rightarrow> codeunit \<Rightarrow> lstate" where
  "lnext AtStart c =
     (if is_space c then AtStart else if is_digit c then InDigits else Inside)"
| "lnext InDigits c =
     (if is_lt c then AtStart else if is_digit c then InDigits else Inside)"
| "lnext Inside c = (if is_lt c then AtStart else Inside)"

fun lbad :: "lstate \<Rightarrow> codeunit \<Rightarrow> bool" where
  "lbad AtStart c = (c = 35 \<or> c = 45 \<or> c = 43)"
| "lbad InDigits c = (c = 46)"
| "lbad Inside c = False"

fun no_line_markers :: "lstate \<Rightarrow> jsstr \<Rightarrow> bool" where
  "no_line_markers s [] = True"
| "no_line_markers s (c # cs) = (\<not> lbad s c \<and> no_line_markers (lnext s c) cs)"


definition plain_chars :: "jsstr \<Rightarrow> bool" where
  "plain_chars t = (no_delims t \<and> no_line_markers AtStart t)"

text \<open>
  Text without markup constructs: none of the formatter's own patterns for a markup
  construct (header, bold, italic, inline code, code block, strikethrough, link,
  horizontal rule, bullet marker, numbered-list marker) matches anywhere in the text.
  \<open>no_blank_run\<close>: the text has no three line breaks in a row.
\<close>

definition markup_patterns :: "re list" where
  "markup_patterns =
     [re_header, re_bold_star, re_bold_under, re_italic_star, re_italic_under, re_inline_code,
      re_code_block, re_strike, re_link, re_rule, re_bullet, re_numbered]"

definition no_markup :: "jsstr \<Rightarrow> bool" where
  "no_markup t = list_all (\<lambda>e. \<not> re_test e [] t) markup_patterns"

text \<open>An expression that matches nowhere in a text.\<close>

definition nomatch :: "re \<Rightarrow> jsstr \<Rightarrow> bool" where
  "nomatch e t = (\<forall>p r. rev p @ r = t \<longrightarrow> ms e (p, r, []) = [])"

section \<open>Values, requests and the outside world\<close>

text \<open>
  A JavaScript value as the gateway sees it: \<open>undefined\<close>, \<open>null\<close>, a boolean, a
  number, a string, an array or an object. A number is modelled by the rational it
  denotes (every finite double is one); \<open>NaN\<close> and the infinities, which JSON cannot
  carry, are left out. An object is the list of its properties in insertion order; a
  later binding of a key overrides an earlier one, as in an object literal with a
  spread.
\<close>

datatype jv =
    JUndef
  | JNull
  | JBool bool
  | JNum rat
  | JStr jsstr
  | JArr "jv list"
  | JObj "(jsstr \<times> jv) list"

fun truthy :: "jv \<Rightarrow> bool" where
  "truthy JUndef = False"
| "truthy JNull = False"
| "truthy (JBool b) = b"
| "truthy (JNum n) = (n \<noteq> 0)"
| "truthy (JStr s) = (s \<noteq> [])"
| "truthy (JArr xs) = True"
| "truthy (JObj kvs) = True"

text \<open>\<open>x || y\<close>\<close>

definition or_else :: "jv \<Rightarrow> jv \<Rightarrow> jv" where
  "or_else x y = (if truthy x then x else y)"

definition nullish :: "jv \<Rightarrow> bool" where
  "nullish v = (v = JUndef \<or> v = JNull)"

text \<open>\<open>o.k\<close> for a value \<open>o\<close> that is not \<open>null\<close> or \<open>undefined\<close> (and \<open>o?.k\<close> for any
  \<open>o\<close>): the property, or \<open>undefined\<close>. Where the source reads a property of a value that
  may be \<open>null\<close> or \<open>undefined\<close>, the model raises the TypeError first.\<close>

fun get :: "jv \<Rightarrow> jsstr \<Rightarrow> jv" where
  "get (JObj kvs) k = (case map_of (rev kvs) k of None \<Rightarrow> JUndef | Some v \<Rightarrow> v)"
| "get v k = JUndef"

definition type_error :: "jv \<Rightarrow> jsstr \<Rightarrow> jsstr" where
  "type_error v k =
     js ''Cannot read properties of '' @ (if v = JNull then js ''null'' else js ''undefined'')
       @ js '' (reading '' @ [39] @ k @ [39] @ js '')''"

text \<open>An HTTP request as \<open>fetch\<close> sends it (the method is POST in every call of the
  source; the body is the value handed to \<open>JSON.stringify\<close>), and what comes back: a
  response with its \<open>ok\<close> flag, status, body text and the outcome of parsing the body as
  JSON (the error message when it does not parse), or a rejected \<open>fetch\<close> (network
  failure, timeout) with its error message.\<close>

record request =
  url :: jsstr
  headers :: "(jsstr \<times> jsstr) list"
  body :: jv

datatype response =
    Resp bool int jsstr "jsstr + jv"
  | Failed jsstr

text \<open>
  What the program cannot decide is a parameter: \<open>respond n q\<close> is the outside world's
  answer to the request \<open>q\<close> when \<open>n\<close> requests went out before it; \<open>now n\<close> is
  \<open>Date.now()\<close> at that moment and \<open>iso\<close> turns a time into its ISO string. The
  number formatting of the platform is a parameter too: \<open>num_str\<close> is \<open>String(x)\<close>,
  \<open>str_num\<close> is \<open>Number(s)\<close> (\<open>None\<close> for \<open>NaN\<close>), \<open>toFixed d x\<close> is \<open>x.toFixed(d)\<close>
  (\<open>None\<close> for \<open>NaN\<close>), \<open>parseFloat\<close> and \<open>stringify\<close> are \<open>parseFloat\<close> and
  \<open>JSON.stringify(_, null, 2)\<close>.
\<close>

record env =
  respond :: "nat \<Rightarrow> request \<Rightarrow> response"
  now :: "nat \<Rightarrow> int"
  iso :: "int \<Rightarrow> jsstr"
  num_str :: "rat \<Rightarrow> jsstr"
  str_num :: "jsstr \<Rightarrow> rat option"
  toFixed :: "nat \<Rightarrow> rat option \<Rightarrow> jsstr"
  parseFloat :: "jsstr \<Rightarrow> jv"
  stringify :: "jv \<Rightarrow> jsstr"

text \<open>The configuration read from the process environment; the empty string is an
  option that is not set.\<close>

record config =
  TELEGRAM_BOT_TOKEN :: jsstr
  TELEGRAM_CHAT_ID :: jsstr
  ELASTIC_URL :: jsstr
  ELASTIC_API_KEY :: jsstr
  KIBANA_URL :: jsstr
  SLACK_WEBHOOK_URL :: jsstr

text \<open>The state of the gateway: the conversation map, and the requests sent so far, in
  order.\<close>

record world =
  conversationMap :: "jv \<rightharpoonup> jv"
  sent :: "request list"

text \<open>A computation that may throw: \<open>Inl\<close> carries the message of the error thrown.\<close>

type_synonym 'a io = "world \<Rightarrow> (jsstr + 'a) \<times> world"

definition fetch :: "env \<Rightarrow> request \<Rightarrow> world \<Rightarrow> response \<times> world" where
  "fetch e q w = (respond e (length (sent w)) q, w\<lparr>sent := sent w @ [q]\<rparr>)"

text \<open>\<open>String(v)\<close>, as a template literal and \<open>+\<close> with a string apply it.\<close>

fun join_with :: "jsstr \<Rightarrow> jsstr list \<Rightarrow> jsstr" where
  "join_with sep [] = []"
| "join_with sep [x] = x"
| "join_with sep (x # y # ys) = x @ sep @ join_with sep (y # ys)"

fun to_str :: "env \<Rightarrow> jv \<Rightarrow> jsstr" where
  "to_str e JUndef = js ''undefined''"
| "to_str e JNull = js ''null''"
| "to_str e (JBool b) = (if b then js ''true'' else js ''false'')"
| "to_str e (JNum n) = num_str e n"
| "to_str e (JStr s) = s"
| "to_str e (JArr xs) = join_with (js '','') (map (\<lambda>x. if nullish x then [] else to_str e x) xs)"
| "to_str e (JObj kvs) = js ''[object Object]''"

text \<open>\<open>Number(v)\<close>; \<open>None\<close> is \<open>NaN\<close>.\<close>

fun to_num :: "env \<Rightarrow> jv \<Rightarrow> rat option" where
  "to_num e JUndef = None"
| "to_num e JNull = Some 0"
| "to_num e (JBool b) = Some (if b then 1 else 0)"
| "to_num e (JNum n) = Some n"
| "to_num e (JStr s) = str_num e s"
| "to_num e (JArr xs) = str_num e (to_str e (JArr xs))"
| "to_num e (JObj kvs) = None"

text \<open>\<open>v < c\<close> for a number \<open>c\<close>: false when \<open>v\<close> is not a number.\<close>

definition num_less :: "env \<Rightarrow> jv \<Rightarrow> rat \<Rightarrow> bool" where
  "num_less e v c = (case to_num e v of None \<Rightarrow> False | Some n \<Rightarrow> n < c)"

text \<open>\<open>v.toFixed(d)\<close>: a TypeError unless \<open>v\<close> is a number.\<close>

definition fixed :: "env \<Rightarrow> nat \<Rightarrow> jv \<Rightarrow> jsstr + jsstr" where
  "fixed e d v =
     (case v of
        JNum n \<Rightarrow> Inr (toFixed e d (Some n))
      | _ \<Rightarrow> Inl (js ''(intermediate value).toFixed is not a function''))"

section \<open>The Telegram helper: \<open>sendTelegram\<close> and \<open>escapeHtml\<close>\<close>

text \<open>\<open>/<[^>]+>/g\<close>\<close>

definition re_tag :: re where
  "re_tag = Seqs [Lit 60, Plus True (Chr (\<lambda>c. c \<noteq> 62)), Lit 62]"

text \<open>The message text is a string in every call of the source. \<open>options\<close> are the
  extra properties spread into the request body (\<open>{}\<close> when the caller gives none).\<close>

definition tg_body :: "config \<Rightarrow> jv \<Rightarrow> (jsstr \<times> jv) list \<Rightarrow> (jsstr \<times> jv) list \<Rightarrow> jv" where
  "tg_body cfg chatId props options =
     JObj ([(js ''chat_id'', or_else chatId (JStr (TELEGRAM_CHAT_ID cfg)))] @ props @ options)"

definition sendTelegram ::
  "env \<Rightarrow> config \<Rightarrow> jv \<Rightarrow> jsstr \<Rightarrow> (jsstr \<times> jv) list \<Rightarrow> jv io" where
  "sendTelegram e cfg chatId text options w =
     (if TELEGRAM_BOT_TOKEN cfg = [] then
        (Inr (JObj [(js ''success'', JBool False), (js ''error'', JStr (js ''Bot not configured''))]), w)
      else
        let safeText = (if int (length text) > 4096 then substring text 0 4090 @ [nl] @ js ''...''
                        else text);
            u = js ''https://api.telegram.org/bot'' @ TELEGRAM_BOT_TOKEN cfg @ js ''/sendMessage'';
            (res, w1) = fetch e
              \<lparr>url = u, headers = [(js ''Content-Type'', js ''application/json'')],
               body = tg_body cfg chatId
                        [(js ''text'', JStr safeText), (js ''parse_mode'', JStr (js ''HTML'')),
                         (js ''disable_web_page_preview'', JBool False)] options\<rparr> w
        in case res of
             Failed msg \<Rightarrow> (Inl msg, w1)
           | Resp ok st err dat \<Rightarrow>
               if \<not> ok then
                 (if includes_str err (js ''can'' @ [39] @ js ''t parse entities'') then
                    (let (plainRes, w2) = fetch e
                           \<lparr>url = u, headers = [(js ''Content-Type'', js ''application/json'')],
                            body = tg_body cfg chatId
                                     [(js ''text'', JStr (replace_g re_tag (\<lambda>c. []) [] safeText))]
                                     options\<rparr> w1
                     in case plainRes of
                          Failed msg \<Rightarrow> (Inl msg, w2)
                        | Resp ok2 st2 txt2 dat2 \<Rightarrow>
                            if ok2 then (Inr (JObj [(js ''success'', JBool True)]), w2)
                            else (Inr (JObj [(js ''success'', JBool False), (js ''error'', JStr err)]), w2))
                  else (Inr (JObj [(js ''success'', JBool False), (js ''error'', JStr err)]), w1))
               else (Inr (JObj [(js ''success'', JBool True)]), w1))"

text \<open>\<open>escapeHtml\<close>: the empty string for a falsy argument; a TypeError for a truthy
  one that is not a string.\<close>

definition escapeHtml :: "jv \<Rightarrow> jsstr + jsstr" where
  "escapeHtml v =
     (if \<not> truthy v then Inr []
      else case v of
        JStr s \<Rightarrow>
          Inr (replace_g (Lit 62) (\<lambda>c. js ''&gt;'') []
                (replace_g (Lit 60) (\<lambda>c. js ''&lt;'') []
                  (replace_g (Lit 38) (\<lambda>c. js ''&amp;'') [] s)))
      | _ \<Rightarrow> Inl (js ''text.replace is not a function''))"

section \<open>The reasoning client: \<open>queryApollo\<close>\<close>

definition intro_reply :: jsstr where
  "intro_reply =
     js ''Hi! I'' @ [39] @
     js ''m Apollo, your AI SRE agent. Ask me anything about your production services '' @
     [226, 8364, 8221] @ js '' for example:'' @ [10, 226, 8364, 162] @ js '' '' @ [34] @
     js ''What'' @ [39] @ js ''s the error rate on checkout-api?'' @ [34, 10, 226, 8364, 162] @
     js '' '' @ [34] @ js ''Run a full production scan'' @ [34, 10, 226, 8364, 162] @ js '' '' @
     [34] @ js ''Search past incidents for payment timeouts'' @ [34]"

text \<open>\<open>conversationMap.get(chatId)\<close>: \<open>undefined\<close> for a channel without a session.\<close>

definition conv_get :: "world \<Rightarrow> jv \<Rightarrow> jv" where
  "conv_get w chatId = (case conversationMap w chatId of None \<Rightarrow> JUndef | Some v \<Rightarrow> v)"

definition converse_request :: "config \<Rightarrow> jsstr \<Rightarrow> jv \<Rightarrow> request" where
  "converse_request cfg sanitizedInput existingConvId =
     \<lparr>url = KIBANA_URL cfg @ js ''/api/agent_builder/converse'',
      headers = [(js ''Authorization'', js ''ApiKey '' @ ELASTIC_API_KEY cfg),
                 (js ''kbn-xsrf'', js ''true''),
                 (js ''Content-Type'', js ''application/json'')],
      body = JObj ([(js ''agent_id'', JStr (js ''apollo'')), (js ''input'', JStr sanitizedInput)]
                   @ (if truthy existingConvId then [(js ''conversation_id'', existingConvId)]
                      else []))\<rparr>"

text \<open>The steps of a reply that are tool calls: \<open>(data.steps || []).filter((s) => s.type
  === "tool_call")\<close>. \<open>Inl\<close> is the TypeError of a \<open>steps\<close> that is no array or of a step
  that is \<open>null\<close> or \<open>undefined\<close>.\<close>

definition tool_calls :: "jv \<Rightarrow> jsstr + jv list" where
  "tool_calls dat =
     (case or_else (get dat (js ''steps'')) (JArr []) of
        JArr steps \<Rightarrow>
          (case filter nullish steps of
             [] \<Rightarrow> Inr (filter (\<lambda>s. get s (js ''type'') = JStr (js ''tool_call'')) steps)
           | s # _ \<Rightarrow> Inl (type_error s (js ''type'')))
      | _ \<Rightarrow> Inl (js ''(data.steps || []).filter is not a function''))"

definition reply_text :: "env \<Rightarrow> jv \<Rightarrow> jsstr + jsstr" where
  "reply_text e dat =
     (let response = or_else (get (get dat (js ''response'')) (js ''message''))
                       (JStr (js ''Investigation complete.''))
      in case tool_calls dat of
           Inl err \<Rightarrow> Inl err
         | Inr toolCalls \<Rightarrow>
             let t = get dat (js ''time_to_last_token'');
                 timing = (if truthy t then
                             [nl, nl] @ num_str e (of_nat (length toolCalls)) @ js '' tools | ''
                               @ toFixed e 0 (map_option (\<lambda>x. x / 1000) (to_num e t)) @ js ''s''
                           else [])
             in Inr (to_str e response @ timing))"

function queryApollo :: "env \<Rightarrow> config \<Rightarrow> jv \<Rightarrow> jv \<Rightarrow> jsstr io" where
  "queryApollo e cfg userMessage chatId w =
     (case or_else userMessage (JStr []) of
        JStr raw \<Rightarrow>
          (let sanitizedInput = trim raw in
           if sanitizedInput = [] then (Inr intro_reply, w)
           else
             let existingConvId = conv_get w chatId;
                 (res, w1) = fetch e (converse_request cfg sanitizedInput existingConvId) w
             in case res of
                  Failed msg \<Rightarrow> (Inl msg, w1)
                | Resp ok st err parsed \<Rightarrow>
                    if \<not> ok then
                      (if includes_str err (js ''not found'') \<and> truthy existingConvId then
                         queryApollo e cfg userMessage chatId
                           (w1\<lparr>conversationMap := (conversationMap w1)(chatId := None)\<rparr>)
                       else (Inl (js ''Apollo API ('' @ num_str e (of_int st) @ js ''): ''
                                   @ substring err 0 200), w1))
                    else
                      (case parsed of
                         Inl msg \<Rightarrow> (Inl msg, w1)
                       | Inr dat \<Rightarrow>
                           if nullish dat then (Inl (type_error dat (js ''conversation_id'')), w1)
                           else
                             let w2 = (if truthy (get dat (js ''conversation_id''))
                                       then w1\<lparr>conversationMap :=
                                              (conversationMap w1)(chatId \<mapsto> get dat (js ''conversation_id''))\<rparr>
                                       else w1)
                             in (reply_text e dat, w2)))
      | _ \<Rightarrow> (Inl (js ''(userMessage || '' @ [34, 34] @ js '').trim is not a function''), w))"
  by pat_completeness auto
termination
  by (relation "measure (\<lambda>(e, cfg, userMessage, chatId, w). if truthy (conv_get w chatId) then 1 else 0)")
     (auto simp: conv_get_def fetch_def)

declare queryApollo.simps [simp del]

definition askApollo :: "env \<Rightarrow> config \<Rightarrow> jv \<Rightarrow> jv io" where
  "askApollo e cfg params w =
     (if nullish params then (Inl (type_error params (js ''question'')), w)
      else case queryApollo e cfg (get params (js ''question'')) (JStr (js ''mcp-client'')) w of
             (Inl err, w1) \<Rightarrow> (Inl err, w1)
           | (Inr response, w1) \<Rightarrow>
               (Inr (JObj [(js ''question'', get params (js ''question'')),
                           (js ''response'', JStr response)]), w1))"

section \<open>The scheduler: \<open>autonomousScan\<close>\<close>

text \<open>A letter of an expression with the \<open>i\<close> flag: a lower-case ASCII letter matches
  itself and its upper-case form.\<close>

definition LitI :: "codeunit \<Rightarrow> re" where
  "LitI c = Chr (\<lambda>x. x = c \<or> x = c - 32)"

definition StrI :: "string \<Rightarrow> re" where
  "StrI s = Seqs (map LitI (js s))"

text \<open>\<open>/all.*normal|no.*anomal|healthy|no.*issue/i\<close>\<close>

definition re_healthy :: re where
  "re_healthy =
     Alt (Seqs [StrI ''all'', Star True (Chr dot), StrI ''normal''])
       (Alt (Seqs [StrI ''no'', Star True (Chr dot), StrI ''anomal''])
         (Alt (StrI ''healthy'')
           (Seqs [StrI ''no'', Star True (Chr dot), StrI ''issue''])))"

definition scan_prompt :: jsstr where
  "scan_prompt =
     js ''Autonomous scheduled scan: Check all production services for anomalies in the last 3 hours. ''
     @ js ''If anything looks abnormal, run the full investigation protocol and take all actions. ''
     @ js ''If everything is healthy, just report that all systems are normal.''"

text \<open>The head of an alert: the shield U+1F6E1 (two code units), then
  \<open> <b>Apollo Scheduled Scan</b>\n\n\<close>.\<close>

definition scan_header :: jsstr where
  "scan_header = [55357, 57057] @ js '' <b>Apollo Scheduled Scan</b>'' @ [nl, nl]"

text \<open>The \<open>try\<close> of \<open>autonomousScan\<close> catches every error and only logs it, so a run
  is a change of the world.\<close>

definition autonomousScan :: "env \<Rightarrow> config \<Rightarrow> world \<Rightarrow> world" where
  "autonomousScan e cfg w =
     (case queryApollo e cfg (JStr scan_prompt) (JStr (js ''scheduled-scan'')) w of
        (Inl err, w1) \<Rightarrow> w1
      | (Inr rawResponse, w1) \<Rightarrow>
          let formatted = mdToTelegramHtml rawResponse;
              isHealthy = re_test re_healthy [] rawResponse
          in if \<not> isHealthy \<and> TELEGRAM_BOT_TOKEN cfg \<noteq> [] \<and> TELEGRAM_CHAT_ID cfg \<noteq> [] then
               snd (sendTelegram e cfg (JStr (TELEGRAM_CHAT_ID cfg))
                      (scan_header @ substring formatted 0 3800) [] w1)
             else w1)"

section \<open>Query and action handlers: \<open>esqlQuery\<close>, \<open>runHealthCheck\<close>, \<open>executeRollback\<close>\<close>

text \<open>Sequencing of steps that may throw.\<close>

definition bindE :: "jsstr + 'a \<Rightarrow> ('a \<Rightarrow> jsstr + 'b) \<Rightarrow> jsstr + 'b" where
  "bindE m f = (case m of Inl err \<Rightarrow> Inl err | Inr x \<Rightarrow> f x)"

text \<open>\<open>row[i]\<close> for a value that is not \<open>null\<close> or \<open>undefined\<close>.\<close>

definition at_index :: "jv \<Rightarrow> nat \<Rightarrow> jv" where
  "at_index v i =
     (case v of
        JArr xs \<Rightarrow> (if i < length xs then xs ! i else JUndef)
      | JStr s \<Rightarrow> (if i < length s then JStr [s ! i] else JUndef)
      | _ \<Rightarrow> JUndef)"

text \<open>\<open>data.columns?.map((c) => c.name) || []\<close>\<close>

definition column_names :: "jv \<Rightarrow> jsstr + jv list" where
  "column_names cols =
     (if nullish cols then Inr []
      else case cols of
        JArr cs \<Rightarrow>
          (case filter nullish cs of
             [] \<Rightarrow> Inr (map (\<lambda>c. get c (js ''name'')) cs)
           | c # _ \<Rightarrow> Inl (type_error c (js ''name'')))
      | _ \<Rightarrow> Inl (js ''data.columns?.map is not a function''))"

text \<open>\<open>(data.values || []).map((row) => { ... columns.forEach((col, i) => { obj[col] =
  row[i]; }) ... })\<close>\<close>

definition row_object :: "env \<Rightarrow> jv list \<Rightarrow> jv \<Rightarrow> jv" where
  "row_object e columns row =
     JObj (map (\<lambda>i. (to_str e (columns ! i), at_index row i)) [0..<length columns])"

definition esql_rows :: "env \<Rightarrow> jv \<Rightarrow> jsstr + jv list" where
  "esql_rows e dat =
     (if nullish dat then Inl (type_error dat (js ''columns''))
      else
        bindE (column_names (get dat (js ''columns''))) (\<lambda>columns.
          case or_else (get dat (js ''values'')) (JArr []) of
            JArr rows \<Rightarrow>
              (case (if columns = [] then [] else filter nullish rows) of
                 [] \<Rightarrow> Inr (map (row_object e columns) rows)
               | r # _ \<Rightarrow> Inl (type_error r (js ''0'')))
          | _ \<Rightarrow> Inl (js ''(data.values || []).map is not a function'')))"

definition esqlQuery :: "env \<Rightarrow> config \<Rightarrow> jsstr \<Rightarrow> jv list io" where
  "esqlQuery e cfg query w =
     (let (res, w1) = fetch e
            \<lparr>url = ELASTIC_URL cfg @ js ''/_query?format=json'',
             headers = [(js ''Authorization'', js ''ApiKey '' @ ELASTIC_API_KEY cfg),
                        (js ''Content-Type'', js ''application/json'')],
             body = JObj [(js ''query'', JStr query)]\<rparr> w
      in case res of
           Failed msg \<Rightarrow> (Inl msg, w1)
         | Resp ok st err parsed \<Rightarrow>
             if \<not> ok then (Inl (js ''ES|QL error: '' @ err), w1)
             else (case parsed of
                     Inl msg \<Rightarrow> (Inl msg, w1)
                   | Inr dat \<Rightarrow> (esql_rows e dat, w1)))"

text \<open>The two queries of \<open>runHealthCheck\<close>; the code unit 34 is the double quote around
  the service name.\<close>

definition recent_query :: "jsstr \<Rightarrow> jsstr" where
  "recent_query service =
     js ''FROM app-metrics | WHERE @timestamp > NOW() - 10 minutes AND service == '' @ [34]
     @ service @ [34]
     @ js '' | STATS avg_error_rate = AVG(error_rate), max_error_rate = MAX(error_rate), ''
     @ js ''avg_latency = AVG(p99_latency_ms), max_connections = MAX(active_connections), ''
     @ js ''sample_count = COUNT(*) BY service | LIMIT 1''"

definition baseline_query :: "jsstr \<Rightarrow> jsstr" where
  "baseline_query service =
     js ''FROM app-metrics | WHERE @timestamp > NOW() - 2 hours AND @timestamp < NOW() - 1 hour ''
     @ js ''AND service == '' @ [34] @ service @ [34]
     @ js '' | STATS baseline_error_rate = AVG(error_rate), baseline_latency = AVG(p99_latency_ms) ''
     @ js ''BY service | LIMIT 1''"

text \<open>\<open>rows[0] || {}\<close>\<close>

definition first_row :: "jv list \<Rightarrow> jv" where
  "first_row rows = or_else (case rows of [] \<Rightarrow> JUndef | r # _ \<Rightarrow> r) (JObj [])"

text \<open>\<open>x || 0\<close>\<close>

definition or0 :: "jv \<Rightarrow> jv" where
  "or0 v = or_else v (JNum 0)"

text \<open>\<open>a < b * 1.5\<close> for values \<open>a\<close> and \<open>b\<close>; the product is taken exactly (the rounding
  of the double product is not modelled).\<close>

definition less_times :: "env \<Rightarrow> jv \<Rightarrow> jv \<Rightarrow> bool" where
  "less_times e a b =
     (case (to_num e a, to_num e b) of
        (Some x, Some y) \<Rightarrow> x < y * (3 / 2)
      | _ \<Rightarrow> False)"

definition runHealthCheck :: "env \<Rightarrow> config \<Rightarrow> jv \<Rightarrow> jv io" where
  "runHealthCheck e cfg params w =
     (if ELASTIC_URL cfg = [] \<or> ELASTIC_API_KEY cfg = [] then
        (if nullish params then (Inl (type_error params (js ''service'')), w)
         else (Inr (JObj [(js ''success'', JBool True), (js ''service'', get params (js ''service'')),
                          (js ''status'', JStr (js ''HEALTHY'')),
                          (js ''message'', JStr (js ''Health check simulated (no ES connection)''))]),
               w))
      else if nullish params then (Inl (type_error params (js ''service'')), w)
      else
        let service = to_str e (get params (js ''service'')) in
        case esqlQuery e cfg (recent_query service) w of
          (Inl err, w1) \<Rightarrow> (Inl err, w1)
        | (Inr recentRows, w1) \<Rightarrow>
            (case esqlQuery e cfg (baseline_query service) w1 of
               (Inl err, w2) \<Rightarrow> (Inl err, w2)
             | (Inr baselineRows, w2) \<Rightarrow>
                 let recent = first_row recentRows;
                     baseline = first_row baselineRows;
                     isHealthy = (num_less e (or0 (get recent (js ''max_error_rate''))) 2
                                  \<and> num_less e (or0 (get recent (js ''avg_latency''))) 500);
                     isImproved = less_times e (or0 (get recent (js ''avg_error_rate'')))
                                    (or0 (get baseline (js ''baseline_error_rate'')))
                 in
                 (bindE (fixed e 2 (or0 (get recent (js ''avg_error_rate'')))) (\<lambda>error_rate.
                  bindE (fixed e 2 (or0 (get recent (js ''max_error_rate'')))) (\<lambda>max_error_rate.
                  bindE (fixed e 0 (or0 (get recent (js ''avg_latency'')))) (\<lambda>p99_latency_ms.
                  bindE (fixed e 2 (or0 (get baseline (js ''baseline_error_rate'')))) (\<lambda>base_error_rate.
                  bindE (fixed e 0 (or0 (get baseline (js ''baseline_latency'')))) (\<lambda>base_latency.
                  bindE (if isHealthy then
                           Inr (service @ js '' is HEALTHY. Error rate and latency are within normal range.'')
                         else
                           bindE (fixed e 1 (or0 (get recent (js ''max_error_rate'')))) (\<lambda>r1.
                           bindE (fixed e 0 (or0 (get recent (js ''avg_latency'')))) (\<lambda>l0.
                           Inr (service @ js '' is still DEGRADED. Error rate: '' @ r1
                                @ js ''%, Latency: '' @ l0 @ js ''ms. Further action may be needed.''))))
                  (\<lambda>verdict.
                  Inr (JObj
                    [(js ''success'', JBool True),
                     (js ''service'', get params (js ''service'')),
                     (js ''status'', JStr (if isHealthy then js ''HEALTHY'' else js ''DEGRADED'')),
                     (js ''recovered'', JBool isImproved),
                     (js ''current'',
                      JObj [(js ''error_rate'', JStr (error_rate @ js ''%'')),
                            (js ''max_error_rate'', JStr (max_error_rate @ js ''%'')),
                            (js ''p99_latency_ms'', JStr (p99_latency_ms @ js ''ms'')),
                            (js ''active_connections'', or0 (get recent (js ''max_connections''))),
                            (js ''data_points'', or0 (get recent (js ''sample_count'')))]),
                     (js ''baseline'',
                      JObj [(js ''error_rate'', JStr (base_error_rate @ js ''%'')),
                            (js ''p99_latency_ms'', JStr (base_latency @ js ''ms''))]),
                     (js ''verdict'', JStr verdict)]))))))), w2)))"

text \<open>
  \<open>executeRollback\<close>. The tick \<open>`\<close> of the Slack texts is the code unit 96; U+2705 and
  U+27A1 are the check mark and the arrow of the Telegram text. \<open>Date.now()\<close> and
  \<open>new Date()\<close> read the clock of the environment.
\<close>

definition rollback_doc :: "env \<Rightarrow> jv \<Rightarrow> int \<Rightarrow> jv" where
  "rollback_doc e params t =
     JObj [(js ''@timestamp'', JStr (iso e t)),
           (js ''service'', get params (js ''service'')),
           (js ''version'', get params (js ''target_version'')),
           (js ''previous_version'', get params (js ''current_version'')),
           (js ''deployer'', or_else (get params (js ''triggered_by'')) (JStr (js ''apollo-agent''))),
           (js ''status'', JStr (js ''success'')),
           (js ''type'', JStr (js ''rollback'')),
           (js ''description'', JStr (js ''Automated rollback: '' @ to_str e (get params (js ''reason'')))),
           (js ''commit_message'',
            JStr (js ''Rollback '' @ to_str e (get params (js ''service'')) @ js '' from ''
                  @ to_str e (get params (js ''current_version'')) @ js '' to ''
                  @ to_str e (get params (js ''target_version'')))),
           (js ''files_changed'', JNum 0),
           (js ''lines_changed'', JNum 0),
           (js ''rollback_reason'', get params (js ''reason'')),
           (js ''automated'', JBool True)]"

definition rollback_write :: "env \<Rightarrow> config \<Rightarrow> jv \<Rightarrow> int \<Rightarrow> request" where
  "rollback_write e cfg params t =
     \<lparr>url = ELASTIC_URL cfg @ js ''/deployments/_doc'',
      headers = [(js ''Authorization'', js ''ApiKey '' @ ELASTIC_API_KEY cfg),
                 (js ''Content-Type'', js ''application/json'')],
      body = rollback_doc e params t\<rparr>"

definition mrkdwn :: "jsstr \<Rightarrow> jv" where
  "mrkdwn s = JObj [(js ''type'', JStr (js ''mrkdwn'')), (js ''text'', JStr s)]"

definition rollback_slack :: "env \<Rightarrow> config \<Rightarrow> jv \<Rightarrow> jsstr \<Rightarrow> request" where
  "rollback_slack e cfg params duration =
     \<lparr>url = SLACK_WEBHOOK_URL cfg,
      headers = [(js ''Content-Type'', js ''application/json'')],
      body = JObj [(js ''attachments'', JArr [JObj
        [(js ''color'', JStr (js ''#00AA00'')),
         (js ''blocks'', JArr
           [JObj [(js ''type'', JStr (js ''header'')),
                  (js ''text'', JObj [(js ''type'', JStr (js ''plain_text'')),
                                      (js ''text'', JStr (js ''Rollback Executed: ''
                                         @ to_str e (get params (js ''service''))))])],
            JObj [(js ''type'', JStr (js ''section'')),
                  (js ''fields'', JArr
                    [mrkdwn (js ''*From:*'' @ [nl, 96]
                             @ to_str e (get params (js ''current_version'')) @ [96]),
                     mrkdwn (js ''*To:*'' @ [nl, 96]
                             @ to_str e (get params (js ''target_version'')) @ [96])])],
            JObj [(js ''type'', JStr (js ''section'')),
                  (js ''text'', mrkdwn (js ''*Reason:* '' @ to_str e (get params (js ''reason''))))],
            JObj [(js ''type'', JStr (js ''section'')),
                  (js ''text'', mrkdwn (js ''*Duration:* '' @ duration
                                        @ js ''s | *Triggered by:* Apollo SRE Agent''))],
            JObj [(js ''type'', JStr (js ''context'')),
                  (js ''elements'', JArr
                    [mrkdwn (js ''kubectl rollout undo deployment/''
                             @ to_str e (get params (js ''service'')) @ js '' --to-revision=...'')])]])]])]\<rparr>"

definition rollback_text :: "env \<Rightarrow> jv \<Rightarrow> jsstr \<Rightarrow> jsstr \<Rightarrow> jsstr" where
  "rollback_text e params duration reason =
     [9989] @ js '' <b>ROLLBACK EXECUTED</b>'' @ [nl, nl]
     @ js ''<b>Service:</b> <code>'' @ to_str e (get params (js ''service'')) @ js ''</code>'' @ [nl]
     @ js ''<b>From:</b> <code>'' @ to_str e (get params (js ''current_version''))
     @ js ''</code>  '' @ [10145] @ js ''  <code>'' @ to_str e (get params (js ''target_version''))
     @ js ''</code>'' @ [nl]
     @ js ''<b>Duration:</b> '' @ duration @ js ''s'' @ [nl]
     @ js ''<b>Reason:</b> '' @ reason @ [nl, nl]
     @ js ''<b>Command executed:</b>'' @ [nl] @ js ''<code>kubectl rollout undo deployment/''
     @ to_str e (get params (js ''service'')) @ js ''</code>'' @ [nl, nl]
     @ js ''<i>Apollo SRE Agent -- Automated Rollback</i>''"

definition rollback_result :: "env \<Rightarrow> config \<Rightarrow> jv \<Rightarrow> jsstr \<Rightarrow> jv \<Rightarrow> jv" where
  "rollback_result e cfg params duration deployId =
     JObj [(js ''success'', JBool True),
           (js ''message'',
            JStr (js ''Rollback executed: '' @ to_str e (get params (js ''service'')) @ js '' ''
                  @ to_str e (get params (js ''current_version'')) @ js '' -> ''
                  @ to_str e (get params (js ''target_version'')) @ js '' in '' @ duration @ js ''s'')),
           (js ''deployment_id'', deployId),
           (js ''command'',
            JStr (js ''kubectl rollout undo deployment/'' @ to_str e (get params (js ''service'')))),
           (js ''duration_seconds'', parseFloat e duration),
           (js ''notifications'',
            JObj [(js ''slack'', JBool (SLACK_WEBHOOK_URL cfg \<noteq> [])),
                  (js ''telegram'', JBool (TELEGRAM_BOT_TOKEN cfg \<noteq> []))])]"

text \<open>Step 1 of \<open>executeRollback\<close>: the write of the deployment record, giving the id of
  the stored document (\<open>null\<close> when nothing is configured or the write is refused).\<close>

definition rollback_record :: "env \<Rightarrow> config \<Rightarrow> jv \<Rightarrow> int \<Rightarrow> jv io" where
  "rollback_record e cfg params t w =
     (if ELASTIC_URL cfg \<noteq> [] \<and> ELASTIC_API_KEY cfg \<noteq> [] then
        (let (res, w1) = fetch e (rollback_write e cfg params t) w
         in case res of
              Failed msg \<Rightarrow> (Inl msg, w1)
            | Resp ok st err parsed \<Rightarrow>
                if ok then
                  (case parsed of
                     Inl msg \<Rightarrow> (Inl msg, w1)
                   | Inr result \<Rightarrow>
                       if nullish result then (Inl (type_error result (js ''_id'')), w1)
                       else (Inr (get result (js ''_id'')), w1))
                else (Inr JNull, w1))
      else (Inr JNull, w))"

text \<open>Step 2: the Slack notification; its response is not looked at, a rejected request
  throws.\<close>

definition rollback_notify_slack :: "env \<Rightarrow> config \<Rightarrow> jv \<Rightarrow> jsstr \<Rightarrow> unit io" where
  "rollback_notify_slack e cfg params duration w =
     (if SLACK_WEBHOOK_URL cfg \<noteq> [] then
        (let (res, w1) = fetch e (rollback_slack e cfg params duration) w
         in case res of
              Failed msg \<Rightarrow> (Inl msg, w1)
            | Resp ok st err parsed \<Rightarrow> (Inr (), w1))
      else (Inr (), w))"

definition executeRollback :: "env \<Rightarrow> config \<Rightarrow> jv \<Rightarrow> jv io" where
  "executeRollback e cfg params w =
     (let startTime = now e (length (sent w)) in
      if nullish params then (Inl (type_error params (js ''service'')), w)
      else
        case rollback_record e cfg params (now e (length (sent w))) w of
          (Inl err, w1) \<Rightarrow> (Inl err, w1)
        | (Inr deployId, w1) \<Rightarrow>
            let duration = toFixed e 1 (Some (of_int (now e (length (sent w1)) - startTime) / 1000))
            in case rollback_notify_slack e cfg params duration w1 of
                 (Inl err, w2) \<Rightarrow> (Inl err, w2)
               | (Inr u, w2) \<Rightarrow>
                   (case escapeHtml (get params (js ''reason'')) of
                      Inl err \<Rightarrow> (Inl err, w2)
                    | Inr reason \<Rightarrow>
                        (case sendTelegram e cfg (JStr (TELEGRAM_CHAT_ID cfg))
                                (rollback_text e params duration reason) [] w2 of
                           (Inl err, w3) \<Rightarrow> (Inl err, w3)
                         | (Inr r, w3) \<Rightarrow>
                             (Inr (rollback_result e cfg params duration deployId), w3))))"

section \<open>The tool dispatcher: \<open>app.post("/mcp")\<close>\<close>

text \<open>
  A handler takes the arguments object and returns a result or throws. The thirteen
  handlers that no statement below looks into are parameters of the dispatcher
  (whatever they do, they return or throw, and may send requests); \<open>executeRollback\<close>,
  \<open>runHealthCheck\<close> and \<open>askApollo\<close> are the functions defined in this theory.
\<close>

type_synonym handler = "jv \<Rightarrow> jv io"

record handlers =
  sendTelegramAlert :: handler
  createIncidentRecord :: handler
  recommendRollback :: handler
  sendSlackNotification :: handler
  createJiraTicket :: handler
  createPagerDutyIncident :: handler
  generatePostmortem :: handler
  updateStatusPage :: handler
  createGithubIssue :: handler
  getServiceHealth :: handler
  getRecentIncidents :: handler
  getRecentDeployments :: handler
  searchErrorLogs :: handler

text \<open>The names of the \<open>switch\<close> of \<open>tools/call\<close>, which are the names of the catalog
  \<open>TOOLS\<close>.\<close>

definition tool_names :: "jsstr list" where
  "tool_names =
     [js ''send_telegram_alert'', js ''create_incident_record'', js ''recommend_rollback'',
      js ''send_slack_notification'', js ''execute_rollback'', js ''run_health_check'',
      js ''create_jira_ticket'', js ''create_pagerduty_incident'', js ''generate_postmortem'',
      js ''update_status_page'', js ''create_github_issue'', js ''get_service_health'',
      js ''get_recent_incidents'', js ''get_recent_deployments'', js ''search_error_logs'',
      js ''ask_apollo'']"

text \<open>The \<open>switch (name)\<close>: the handler a name selects, applied as the case applies it
  (the four read handlers get \<open>args || {}\<close>); \<open>None\<close> is the \<open>default\<close> case.\<close>

definition handler_of :: "env \<Rightarrow> config \<Rightarrow> handlers \<Rightarrow> jv \<Rightarrow> handler option" where
  "handler_of e cfg hs name =
     (if name = JStr (js ''send_telegram_alert'') then Some (sendTelegramAlert hs)
      else if name = JStr (js ''create_incident_record'') then Some (createIncidentRecord hs)
      else if name = JStr (js ''recommend_rollback'') then Some (recommendRollback hs)
      else if name = JStr (js ''send_slack_notification'') then Some (sendSlackNotification hs)
      else if name = JStr (js ''execute_rollback'') then Some (executeRollback e cfg)
      else if name = JStr (js ''run_health_check'') then Some (runHealthCheck e cfg)
      else if name = JStr (js ''create_jira_ticket'') then Some (createJiraTicket hs)
      else if name = JStr (js ''create_pagerduty_incident'') then Some (createPagerDutyIncident hs)
      else if name = JStr (js ''generate_postmortem'') then Some (generatePostmortem hs)
      else if name = JStr (js ''update_status_page'') then Some (updateStatusPage hs)
      else if name = JStr (js ''create_github_issue'') then Some (createGithubIssue hs)
      else if name = JStr (js ''get_service_health'')
        then Some (\<lambda>args. getServiceHealth hs (or_else args (JObj [])))
      else if name = JStr (js ''get_recent_incidents'')
        then Some (\<lambda>args. getRecentIncidents hs (or_else args (JObj [])))
      else if name = JStr (js ''get_recent_deployments'')
        then Some (\<lambda>args. getRecentDeployments hs (or_else args (JObj [])))
      else if name = JStr (js ''search_error_logs'')
        then Some (\<lambda>args. searchErrorLogs hs (or_else args (JObj [])))
      else if name = JStr (js ''ask_apollo'') then Some (askApollo e cfg)
      else None)"

text \<open>The \<open>try\<close> block of \<open>tools/call\<close>: the result of the handler; \<open>{ error: err.message }\<close>
  for a handler that throws; \<open>{ error: `Unknown tool: ${name}` }\<close> for a name without a
  case.\<close>

definition call_tool :: "env \<Rightarrow> config \<Rightarrow> handlers \<Rightarrow> jv \<Rightarrow> jv \<Rightarrow> world \<Rightarrow> jv \<times> world" where
  "call_tool e cfg hs name args w =
     (case handler_of e cfg hs name of
        Some h \<Rightarrow>
          (case h args w of
             (Inr result, w1) \<Rightarrow> (result, w1)
           | (Inl err, w1) \<Rightarrow> (JObj [(js ''error'', JStr err)], w1))
      | None \<Rightarrow> (JObj [(js ''error'', JStr (js ''Unknown tool: '' @ to_str e name))], w))"

text \<open>What the endpoint does with a request: it sends a JSON body, or its function
  throws before any response is sent (the destructuring of a missing body or of missing
  \<open>params\<close>).\<close>

datatype reply = Json jv | Unhandled jsstr

definition tool_reply :: "env \<Rightarrow> jv \<Rightarrow> jv \<Rightarrow> jv" where
  "tool_reply e ident result =
     JObj [(js ''jsonrpc'', JStr (js ''2.0'')), (js ''id'', ident),
           (js ''result'',
            JObj [(js ''content'',
                   JArr [JObj [(js ''type'', JStr (js ''text'')),
                               (js ''text'', JStr (stringify e result))]])])]"

definition mcp_post :: "env \<Rightarrow> config \<Rightarrow> handlers \<Rightarrow> jv \<Rightarrow> jv \<Rightarrow> world \<Rightarrow> reply \<times> world" where
  "mcp_post e cfg hs TOOLS req w =
     (if nullish req then (Unhandled (type_error req (js ''method'')), w)
      else
        let method = get req (js ''method'');
            params = get req (js ''params'');
            ident = get req (js ''id'')
        in if method = JStr (js ''initialize'') then
             (Json (JObj [(js ''jsonrpc'', JStr (js ''2.0'')), (js ''id'', ident),
                          (js ''result'',
                           JObj [(js ''protocolVersion'', JStr (js ''2025-03-26'')),
                                 (js ''capabilities'', JObj [(js ''tools'', JObj [])]),
                                 (js ''serverInfo'',
                                  JObj [(js ''name'', JStr (js ''apollo-actions'')),
                                        (js ''version'', JStr (js ''4.0.0''))])])]), w)
           else if method = JStr (js ''tools/list'') then
             (Json (JObj [(js ''jsonrpc'', JStr (js ''2.0'')), (js ''id'', ident),
                          (js ''result'', JObj [(js ''tools'', TOOLS)])]), w)
           else if method = JStr (js ''tools/call'') then
             (if nullish params then (Unhandled (type_error params (js ''name'')), w)
              else
                let (result, w1) = call_tool e cfg hs (get params (js ''name''))
                                     (get params (js ''arguments'')) w
                in (Json (tool_reply e ident result), w1))
           else
             (Json (JObj [(js ''jsonrpc'', JStr (js ''2.0'')), (js ''id'', ident),
                          (js ''error'',
                           JObj [(js ''code'', JNum (- 32601)),
                                 (js ''message'', JStr (js ''Method not found: '' @ to_str e method))])]),
              w))"

text \<open>Handlers that return \<open>null\<close> and do nothing else, for worked examples.\<close>

definition idle_handlers :: handlers where
  "idle_handlers =
     \<lparr>sendTelegramAlert = (\<lambda>args w. (Inr JNull, w)),
      createIncidentRecord = (\<lambda>args w. (Inr JNull, w)),
      recommendRollback = (\<lambda>args w. (Inr JNull, w)),
      sendSlackNotification = (\<lambda>args w. (Inr JNull, w)),
      createJiraTicket = (\<lambda>args w. (Inr JNull, w)),
      createPagerDutyIncident = (\<lambda>args w. (Inr JNull, w)),
      generatePostmortem = (\<lambda>args w. (Inr JNull, w)),
      updateStatusPage = (\<lambda>args w. (Inr JNull, w)),
      createGithubIssue = (\<lambda>args w. (Inr JNull, w)),
      getServiceHealth = (\<lambda>args w. (Inr JNull, w)),
      getRecentIncidents = (\<lambda>args w. (Inr JNull, w)),
      getRecentDeployments = (\<lambda>args w. (Inr JNull, w)),
      searchErrorLogs = (\<lambda>args w. (Inr JNull, w))\<rparr>"

section \<open>Names for statements, and a scripted outside world\<close>

text \<open>The text \<open>sendTelegram\<close> sends (\<open>safeText\<close> in the source).\<close>

definition safe_text :: "jsstr \<Rightarrow> jsstr" where
  "safe_text text = (if int (length text) > 4096 then substring text 0 4090 @ [nl] @ js ''...'' else text)"

text \<open>The requests of one call of \<open>sendTelegram\<close>.\<close>

definition tg_first :: "config \<Rightarrow> jv \<Rightarrow> jsstr \<Rightarrow> (jsstr \<times> jv) list \<Rightarrow> request" where
  "tg_first cfg chatId text options =
     \<lparr>url = js ''https://api.telegram.org/bot'' @ TELEGRAM_BOT_TOKEN cfg @ js ''/sendMessage'',
      headers = [(js ''Content-Type'', js ''application/json'')],
      body = tg_body cfg chatId
               [(js ''text'', JStr (safe_text text)), (js ''parse_mode'', JStr (js ''HTML'')),
                (js ''disable_web_page_preview'', JBool False)] options\<rparr>"

definition tg_plain :: "config \<Rightarrow> jv \<Rightarrow> jsstr \<Rightarrow> (jsstr \<times> jv) list \<Rightarrow> request" where
  "tg_plain cfg chatId text options =
     \<lparr>url = js ''https://api.telegram.org/bot'' @ TELEGRAM_BOT_TOKEN cfg @ js ''/sendMessage'',
      headers = [(js ''Content-Type'', js ''application/json'')],
      body = tg_body cfg chatId
               [(js ''text'', JStr (replace_g re_tag (\<lambda>c. []) [] (safe_text text)))] options\<rparr>"

text \<open>
  For worked examples: an outside world that answers the \<open>n\<close>-th request with the
  \<open>n\<close>-th response of a script (and fails the request when the script is over), with
  stubs for the platform's formatting functions; the state of a gateway that has just
  started; and a configuration with every option set.
\<close>

definition scripted :: "response list \<Rightarrow> env" where
  "scripted rs =
     \<lparr>respond = (\<lambda>n q. if n < length rs then rs ! n else Failed (js ''fetch failed'')),
      now = (\<lambda>n. 1000 * int n),
      iso = (\<lambda>t. js ''1970-01-01T00:00:00.000Z''),
      num_str = (\<lambda>x. js ''0''),
      str_num = (\<lambda>s. None),
      toFixed = (\<lambda>d x. js ''0''),
      parseFloat = (\<lambda>s. JNum 0),
      stringify = (\<lambda>v. js ''{}'')\<rparr>"

definition idle :: world where
  "idle = \<lparr>conversationMap = Map.empty, sent = []\<rparr>"

definition demo_config :: config where
  "demo_config =
     \<lparr>TELEGRAM_BOT_TOKEN = js ''token'', TELEGRAM_CHAT_ID = js ''42'',
      ELASTIC_URL = js ''http://es'', ELASTIC_API_KEY = js ''key'',
      KIBANA_URL = js ''http://kibana'', SLACK_WEBHOOK_URL = js ''http://slack''\<rparr>"

text \<open>For the retry of \<open>queryApollo\<close>: the world in which the retry starts (the first
  request is out, the session of the channel is deleted), and the error thrown for a
  response that is not \<open>ok\<close>.\<close>

definition after_stale :: "config \<Rightarrow> jsstr \<Rightarrow> jv \<Rightarrow> jv \<Rightarrow> world \<Rightarrow> world" where
  "after_stale cfg input cid chatId w =
     w\<lparr>sent := sent w @ [converse_request cfg input cid],
       conversationMap := (conversationMap w)(chatId := None)\<rparr>"

definition api_error :: "env \<Rightarrow> int \<Rightarrow> jsstr \<Rightarrow> jsstr" where
  "api_error e st err = js ''Apollo API ('' @ num_str e (of_int st) @ js ''): '' @ substring err 0 200"

text \<open>A world with a stored session, and an engine that reports it missing and then
  fails.\<close>

definition stale_world :: world where
  "stale_world = \<lparr>conversationMap = [JStr (js ''chat'') \<mapsto> JStr (js ''c1'')], sent = []\<rparr>"

definition stale_script :: env where
  "stale_script = scripted [Resp False 404 (js ''conversation not found'') (Inr JNull),
                            Resp False 500 (js ''boom'') (Inr JNull)]"

text \<open>For the scheduled scan: the query it makes, the text of the alert it sends for a
  reply, and two engines for worked examples, one that reports all clear and one that
  reports a problem (the second response of the latter is Telegram's).\<close>

definition scan_query :: "env \<Rightarrow> config \<Rightarrow> jsstr io" where
  "scan_query e cfg w = queryApollo e cfg (JStr scan_prompt) (JStr (js ''scheduled-scan'')) w"

definition scan_alert :: "jsstr \<Rightarrow> jsstr" where
  "scan_alert reply = scan_header @ substring (mdToTelegramHtml reply) 0 3800"

definition scan_reply :: "jsstr \<Rightarrow> response" where
  "scan_reply s = Resp True 200 [] (Inr (JObj [(js ''response'', JObj [(js ''message'', JStr s)])]))"

definition calm_engine :: env where
  "calm_engine = scripted [scan_reply (js ''All systems are normal.'')]"

definition alarm_engine :: env where
  "alarm_engine = scripted [scan_reply (js ''Error spike on **checkout-api**''),
                            Resp True 200 [] (Inr JNull)]"

text \<open>For worked examples of the dispatcher: a call of a tool that does not exist, a
  call of \<open>ask_apollo\<close>, and an outside world in which every request is rejected.\<close>

definition unknown_call :: jv where
  "unknown_call =
     JObj [(js ''jsonrpc'', JStr (js ''2.0'')), (js ''method'', JStr (js ''tools/call'')),
           (js ''params'', JObj [(js ''name'', JStr (js ''launch_missiles'')),
                                 (js ''arguments'', JObj [])]),
           (js ''id'', JNum 7)]"

definition ask_call :: jv where
  "ask_call =
     JObj [(js ''jsonrpc'', JStr (js ''2.0'')), (js ''method'', JStr (js ''tools/call'')),
           (js ''params'', JObj [(js ''name'', JStr (js ''ask_apollo'')),
                                 (js ''arguments'', JObj [(js ''question'', JStr (js ''status?''))])]),
           (js ''id'', JNum 8)]"

definition offline :: env where
  "offline = scripted []"

text \<open>For the health check: an aggregate that \<open>toFixed\<close> accepts (a number, or a value
  that \<open>|| 0\<close> replaces by 0, as the \<open>null\<close> of an empty window); the value a handler
  returned; and, for worked examples, ES|QL responses, a metrics store whose current
  window has a low average but a high maximum error rate, one whose current window is
  calm, the rows the latter returns, and the arguments of a call.\<close>

definition numeric :: "jv \<Rightarrow> bool" where
  "numeric v = (case or0 v of JNum n \<Rightarrow> True | _ \<Rightarrow> False)"

definition result_of :: "jsstr + jv \<Rightarrow> jv" where
  "result_of r = (case r of Inr v \<Rightarrow> v | Inl err \<Rightarrow> JUndef)"

definition esql_table :: "jsstr list \<Rightarrow> jv list list \<Rightarrow> response" where
  "esql_table columns rows =
     Resp True 200 []
       (Inr (JObj [(js ''columns'', JArr (map (\<lambda>c. JObj [(js ''name'', JStr c)]) columns)),
                   (js ''values'', JArr (map JArr rows))]))"

definition recent_columns :: "jsstr list" where
  "recent_columns = [js ''avg_error_rate'', js ''max_error_rate'', js ''avg_latency'',
                     js ''max_connections'', js ''sample_count'', js ''service'']"

definition baseline_columns :: "jsstr list" where
  "baseline_columns = [js ''baseline_error_rate'', js ''baseline_latency'', js ''service'']"

definition spike_metrics :: env where
  "spike_metrics = scripted
     [esql_table recent_columns [[JNum 1, JNum 5, JNum 100, JNum 10, JNum 20, JStr (js ''checkout-api'')]],
      esql_table baseline_columns [[JNum 1, JNum 100, JStr (js ''checkout-api'')]]]"

definition calm_metrics :: env where
  "calm_metrics = scripted
     [esql_table recent_columns [[JNum (1 / 2), JNum 1, JNum 100, JNum 10, JNum 20, JStr (js ''checkout-api'')]],
      esql_table baseline_columns [[JNum 1, JNum 100, JStr (js ''checkout-api'')]]]"

definition health_args :: jv where
  "health_args = JObj [(js ''service'', JStr (js ''checkout-api''))]"

definition calm_row :: jv where
  "calm_row = JObj [(js ''avg_error_rate'', JNum (1 / 2)), (js ''max_error_rate'', JNum 1),
                    (js ''avg_latency'', JNum 100), (js ''max_connections'', JNum 10),
                    (js ''sample_count'', JNum 20), (js ''service'', JStr (js ''checkout-api''))]"

definition base_row :: jv where
  "base_row = JObj [(js ''baseline_error_rate'', JNum 1), (js ''baseline_latency'', JNum 100),
                    (js ''service'', JStr (js ''checkout-api''))]"








chapter \<open>Verification\<close>

section \<open>The chunker\<close>

lemma ms_leading_nl_inside: "p \<noteq> [] \<Longrightarrow> ms re_leading_nl (p, r, c) = []"
  by (cases p) (simp_all add: re_leading_nl_def)

lemma replace_first_bol_nonempty:
  "p \<noteq> [] \<Longrightarrow> replace_first re_leading_nl f p r = r"
proof (induction r arbitrary: p)
  case Nil
  then show ?case by (subst replace_first.simps) (simp add: ms_leading_nl_inside)
next
  case (Cons x xs)
  have "replace_first re_leading_nl f (x # p) xs = xs" by (rule Cons.IH) simp
  then show ?case using Cons.prems
    by (subst replace_first.simps) (simp add: ms_leading_nl_inside)
qed

lemma replace_first_leading_nl:
  "replace_first re_leading_nl (\<lambda>_. []) [] s =
     (case s of [] \<Rightarrow> [] | x # xs \<Rightarrow> if x = nl then xs else s)"
proof (cases s)
  case Nil
  then show ?thesis by (subst replace_first.simps) (simp add: re_leading_nl_def Lit_def)
next
  case (Cons x xs)
  show ?thesis
  proof (cases "x = nl")
    case True
    then show ?thesis using Cons
      by (subst replace_first.simps) (simp add: re_leading_nl_def Lit_def)
  next
    case False
    then show ?thesis using Cons
      by (subst replace_first.simps) (simp add: re_leading_nl_def Lit_def replace_first_bol_nonempty[unfolded re_leading_nl_def Lit_def])
  qed
qed

lemma lastIndexOf_bounds: "-1 \<le> lastIndexOf s c n \<and> lastIndexOf s c n \<le> int n"
  by (induction n) auto

lemma substring_take: "0 \<le> k \<Longrightarrow> substring s 0 k = take (nat k) s"
  by (auto simp: substring_def Let_def min_def max_def)

lemma substring_from_drop: "0 \<le> k \<Longrightarrow> substring_from s k = drop (nat k) s"
  by (auto simp: substring_from_def substring_def Let_def min_def max_def)

lemma splitIdx_of_bounds: "0 \<le> splitIdx_of L s \<and> splitIdx_of L s \<le> int L"
  using lastIndexOf_bounds[of s nl L] by (auto simp: splitIdx_of_def Let_def)

lemma splitIdx_of_pos: "0 < L \<Longrightarrow> 0 < splitIdx_of L s"
  using lastIndexOf_bounds[of s nl L] by (auto simp: splitIdx_of_def Let_def)

lemma splitLoop_body:
  assumes "L < length s"
  shows "(if 0 < length s then
            (if length s \<le> L then Some (chunks @ [s])
             else
               let idx = lastIndexOf s nl L;
                   splitIdx = (if 10 * idx < 3 * int L then int L else idx)
               in f L
                    (replace_first re_leading_nl (\<lambda>_. []) [] (substring_from s splitIdx))
                    (chunks @ [substring s 0 splitIdx]))
          else Some chunks)
         = f L (after_split (nat (splitIdx_of L s)) s) (chunks @ [take (nat (splitIdx_of L s)) s])"
proof -
  have b: "0 \<le> splitIdx_of L s" using splitIdx_of_bounds by blast
  have r: "replace_first re_leading_nl (\<lambda>_. []) [] (substring_from s (splitIdx_of L s))
             = after_split (nat (splitIdx_of L s)) s"
    unfolding substring_from_drop[OF b] replace_first_leading_nl after_split_def
    by (simp split: list.splits)
  have "(let idx = lastIndexOf s nl L;
             splitIdx = (if 10 * idx < 3 * int L then int L else idx)
         in f L
              (replace_first re_leading_nl (\<lambda>_. []) [] (substring_from s splitIdx))
              (chunks @ [substring s 0 splitIdx]))
        = f L (replace_first re_leading_nl (\<lambda>_. []) [] (substring_from s (splitIdx_of L s)))
              (chunks @ [substring s 0 (splitIdx_of L s)])"
    by (simp only: Let_def splitIdx_of_def)
  moreover have "0 < length s" "\<not> length s \<le> L" using assms by auto
  ultimately show ?thesis by (simp only: r substring_take[OF b] if_True if_False)
qed

lemma splitLoop_step:
  assumes "L < length s"
  shows "splitLoop L s chunks =
           splitLoop L (after_split (nat (splitIdx_of L s)) s)
              (chunks @ [take (nat (splitIdx_of L s)) s])"
  by (subst splitLoop.simps) (rule splitLoop_body[OF assms])

lemma seg_ok_step:
  assumes "L < length s" "k \<le> L" and "seg_ok L (after_split k s) out"
  shows "seg_ok L s (take k s # out)"
proof -
  from assms obtain x xs where d: "drop k s = x # xs" by (cases "drop k s") auto
  have s: "s = take k s @ x # xs" using d by (metis append_take_drop_id)
  have len: "length (take k s) = k" using assms by simp
  have br: "breaks s (take k s # out)
      = (if x = nl then True # breaks xs out else False # breaks (x # xs) out)"
    unfolding breaks.simps len d by simp
  show ?thesis
  proof (cases "x = nl")
    case True
    with assms d have ok: "seg_ok L xs out" by (simp add: after_split_def)
    have "subseq (concat out) (x # xs)" using ok by (auto simp: seg_ok_def)
    hence "subseq (take k s @ concat out) (take k s @ x # xs)"
      by (simp add: list_emb_append_mono)
    hence sub: "subseq (concat (take k s # out)) s" using s by simp
    have "reassemble (take k s # out) (breaks s (take k s # out)) = take k s @ [nl] @ xs"
      using ok True unfolding br by (simp add: seg_ok_def)
    hence re: "reassemble (take k s # out) (breaks s (take k s # out)) = s"
      using s True by simp
    show ?thesis unfolding seg_ok_def using sub re ok assms(2) by (simp add: seg_ok_def)
  next
    case False
    with assms d have ok: "seg_ok L (x # xs) out" by (simp add: after_split_def)
    have "subseq (take k s @ concat out) (take k s @ x # xs)"
      using ok by (simp add: seg_ok_def list_emb_append_mono)
    hence sub: "subseq (concat (take k s # out)) s" using s by simp
    have "reassemble (take k s # out) (breaks s (take k s # out)) = take k s @ x # xs"
      using ok False unfolding br by (simp add: seg_ok_def)
    hence re: "reassemble (take k s # out) (breaks s (take k s # out)) = s"
      using s by simp
    show ?thesis unfolding seg_ok_def using sub re ok assms(2) by (simp add: seg_ok_def)
  qed
qed

lemma splitLoop_partial:
  assumes "splitLoop L s chunks = Some res"
  shows "\<exists>out. res = chunks @ out \<and> seg_ok L s out"
proof (rule splitLoop.raw_induct[where P = "\<lambda>L s chunks res. \<exists>out. res = chunks @ out \<and> seg_ok L s out", OF _ assms])
  fix f :: "nat \<Rightarrow> jsstr \<Rightarrow> jsstr list \<Rightarrow> jsstr list option" and L s chunks res
  assume IH: "\<And>L s chunks res. f L s chunks = Some res \<Longrightarrow> \<exists>out. res = chunks @ out \<and> seg_ok L s out"
  assume body: "(if 0 < length s
      then if length s \<le> L then Some (chunks @ [s])
           else let idx = lastIndexOf s nl L;
                    splitIdx = if 10 * idx < 3 * int L then int L else idx
                in f L (replace_first re_leading_nl (\<lambda>_. []) [] (substring_from s splitIdx))
                    (chunks @ [substring s 0 splitIdx])
      else Some chunks) = Some res"
  show "\<exists>out. res = chunks @ out \<and> seg_ok L s out"
  proof (cases "length s \<le> L")
    case True
    show ?thesis
    proof (cases "s = []")
      case True
      with body show ?thesis by (simp add: seg_ok_def)
    next
      case False
      with True body have "res = chunks @ [s]" by auto
      moreover have "seg_ok L s [s]" using True by (simp add: seg_ok_def)
      ultimately show ?thesis by blast
    qed
  next
    case False
    hence lt: "L < length s" by simp
    define k where "k = nat (splitIdx_of L s)"
    have kb: "k \<le> L" using splitIdx_of_bounds[of L s] by (simp add: k_def nat_le_iff)
    have "f L (after_split k s) (chunks @ [take k s]) = Some res"
      using body unfolding splitLoop_body[OF lt] k_def .
    from IH[OF this] obtain out where o: "res = (chunks @ [take k s]) @ out" "seg_ok L (after_split k s) out"
      by blast
    have "seg_ok L s (take k s # out)"
      using seg_ok_step[OF lt kb o(2)] .
    with o(1) show ?thesis by auto
  qed
qed

lemma splitLoop_returns:
  assumes "0 < L"
  shows "splitLoop L s chunks \<noteq> None"
proof (induction "length s" arbitrary: s chunks rule: less_induct)
  case less
  show ?case
  proof (cases "length s \<le> L")
    case True
    then show ?thesis by (subst splitLoop.simps) simp
  next
    case False
    define k where "k = nat (splitIdx_of L s)"
    have kp: "0 < k" "k \<le> L" using splitIdx_of_pos[OF assms, of s] splitIdx_of_bounds[of L s]
      by (simp_all add: k_def)
    have "length (after_split k s) \<le> length (drop k s)"
      by (cases "drop k s") (auto simp: after_split_def simp del: length_drop)
    hence "length (after_split k s) < length s" using kp False by simp
    from less[OF this] show ?thesis
      using splitLoop_step[of L s chunks] False by (simp add: k_def)
  qed
qed

lemma splitMessage_returns: "0 < L \<Longrightarrow> splitMessage T L \<noteq> None"
  using splitLoop_returns[of L T "[]"] by (simp add: splitMessage_def)

lemma splitMessage_partial:
  assumes "splitMessage T L = Some chunks"
  shows "seg_ok L T chunks"
proof (cases "length T \<le> L")
  case True
  with assms have "chunks = [T]" by (simp add: splitMessage_def)
  then show ?thesis using True by (simp add: seg_ok_def)
next
  case False
  with assms have "splitLoop L T [] = Some chunks" by (simp add: splitMessage_def)
  from splitLoop_partial[OF this] show ?thesis by simp
qed

text \<open>
  At \<open>maxLen = 0\<close> the loop need not end: on the text \<open>a\<close> every pass pushes an empty
  segment and leaves the text as it was.
\<close>

lemma splitMessage_zero_diverges: "splitMessage (js ''a'') 0 = None"
proof -
  have "False" if run: "splitLoop 0 [97] [] = Some res" for res
  proof -
    have "\<not> (0 = (0::nat) \<and> [97] = [97::codeunit])"
    proof (rule splitLoop.raw_induct[where P = "\<lambda>L s chunks res. \<not> (L = 0 \<and> s = [97])", OF _ run])
      fix f :: "nat \<Rightarrow> jsstr \<Rightarrow> jsstr list \<Rightarrow> jsstr list option" and L s chunks y
      assume IH: "\<And>L s chunks y. f L s chunks = Some y \<Longrightarrow> \<not> (L = 0 \<and> s = [97])"
      assume body: "(if 0 < length s
        then if length s \<le> L then Some (chunks @ [s])
             else let idx = lastIndexOf s nl L;
                      splitIdx = if 10 * idx < 3 * int L then int L else idx
                  in f L (replace_first re_leading_nl (\<lambda>_. []) [] (substring_from s splitIdx))
                      (chunks @ [substring s 0 splitIdx])
        else Some chunks) = Some y"
      show "\<not> (L = 0 \<and> s = [97])"
      proof
        assume "L = 0 \<and> s = [97]"
        with body have "f 0 [97] (chunks @ [[]]) = Some y"
          by (simp add: substring_def substring_from_def Let_def replace_first.simps
              re_leading_nl_def Lit_def)
        from IH[OF this] show False by simp
      qed
    qed
    then show False by simp
  qed
  then have "splitLoop 0 [97] [] = None" by (cases "splitLoop 0 [97] []") auto
  then show ?thesis by (simp add: splitMessage_def js_def)
qed


text \<open>
  C3: for every text \<open>T\<close> and maximum length \<open>L\<close>, concatenating the segments returned
  by \<open>splitMessage T L\<close>, with one line break put back at each split that consumed one,
  reproduces \<open>T\<close> exactly. A split consumes a line break exactly when the text left
  after the segment starts with one; \<open>breaks T chunks\<close> marks those segments, the last
  one too when its split consumed the final line break of the text. A result is
  returned whenever \<open>L \<ge> 1\<close>.
\<close>

theorem splitMessage_roundtrip:
  "(0 < L \<longrightarrow> splitMessage T L \<noteq> None) \<and>
   (\<forall>chunks. splitMessage T L = Some chunks \<longrightarrow> reassemble chunks (breaks T chunks) = T)"
proof (intro conjI allI impI)
  show "splitMessage T L \<noteq> None" if "0 < L" using that by (rule splitMessage_returns)
  show "reassemble chunks (breaks T chunks) = T" if "splitMessage T L = Some chunks" for chunks
    using splitMessage_partial[OF that] by (simp add: seg_ok_def)
qed

theorem splitMessage_roundtrip_witness:
  "splitMessage (js ''ab'' @ [nl] @ js ''cdef'' @ [nl]) 4 = Some [js ''ab'', js ''cdef'']
   \<and> reassemble [js ''ab'', js ''cdef'']
         (breaks (js ''ab'' @ [nl] @ js ''cdef'' @ [nl]) [js ''ab'', js ''cdef''])
       = js ''ab'' @ [nl] @ js ''cdef'' @ [nl]
   \<and> breaks (js ''ab'' @ [nl] @ js ''cdef'' @ [nl]) [js ''ab'', js ''cdef'']
       = [True, True]"
proof -
  have pos: "0 < (4::nat)" by simp
  have run: "splitMessage (js ''ab'' @ [nl] @ js ''cdef'' @ [nl]) 4
               = Some [js ''ab'', js ''cdef'']"
    by code_simp
  have flags: "breaks (js ''ab'' @ [nl] @ js ''cdef'' @ [nl]) [js ''ab'', js ''cdef'']
                 = [True, True]"
    by code_simp
  from splitMessage_roundtrip[of 4 "js ''ab'' @ [nl] @ js ''cdef'' @ [nl]"] pos run flags
  show ?thesis by simp
qed

text \<open>Segments that reassemble to the text lie in it at increasing offsets.\<close>

lemma placed_at_iff:
  "placed_at t cs offs =
     (length offs = length cs
      \<and> (\<forall>i<length cs. offs ! i + length (cs ! i) \<le> length t
                       \<and> take (length (cs ! i)) (drop (offs ! i) t) = cs ! i)
      \<and> (\<forall>i. Suc i < length cs \<longrightarrow> offs ! i + length (cs ! i) \<le> offs ! Suc i))"
  by (auto simp: placed_at_def list_all_iff)

lemma placed_at_Nil: "placed_at t [] []"
  by (simp add: placed_at_def)

lemma placed_at_Cons:
  assumes "placed_at t' cs offs"
  shows "placed_at (c @ sep @ t') (c # cs) (0 # map (\<lambda>n. n + (length c + length sep)) offs)"
  unfolding placed_at_iff
proof (intro conjI allI impI)
  from assms have len: "length offs = length cs"
    and at: "\<And>i. i < length cs \<Longrightarrow> offs ! i + length (cs ! i) \<le> length t'
                 \<and> take (length (cs ! i)) (drop (offs ! i) t') = cs ! i"
    and inc: "\<And>i. Suc i < length cs \<Longrightarrow> offs ! i + length (cs ! i) \<le> offs ! Suc i"
    unfolding placed_at_iff by blast+
  let ?offs = "0 # map (\<lambda>n. n + (length c + length sep)) offs"
  show "length ?offs = length (c # cs)" using len by simp
  fix i
  { assume i: "i < length (c # cs)"
    show "?offs ! i + length ((c # cs) ! i) \<le> length (c @ sep @ t')"
    proof (cases i)
      case 0
      then show ?thesis by simp
    next
      case (Suc j)
      with i at[of j] len show ?thesis by simp
    qed
    show "take (length ((c # cs) ! i)) (drop (?offs ! i) (c @ sep @ t')) = (c # cs) ! i"
    proof (cases i)
      case 0
      then show ?thesis by simp
    next
      case (Suc j)
      with i have j: "j < length cs" by simp
      have "drop (offs ! j + (length c + length sep)) (c @ sep @ t') = drop (offs ! j) t'"
        by (metis add.commute append.assoc drop_append drop_drop length_append append_eq_conv_conj diff_add_inverse2 drop_all le_add2 self_append_conv2)
      with at[OF j] Suc j len show ?thesis by simp
    qed }
  { assume i: "Suc i < length (c # cs)"
    show "?offs ! i + length ((c # cs) ! i) \<le> ?offs ! Suc i"
    proof (cases i)
      case 0
      with i len show ?thesis by simp
    next
      case (Suc j)
      with i inc[of j] len show ?thesis by simp
    qed }
qed

lemma reassemble_placed:
  "reassemble cs (breaks t cs) = t \<Longrightarrow> \<exists>offs. placed_at t cs offs"
proof (induction cs arbitrary: t)
  case Nil
  then show ?case using placed_at_Nil by blast
next
  case (Cons c cs)
  show ?case
  proof (cases "drop (length c) t")
    case Nil
    with Cons.prems have eq: "c @ reassemble cs (breaks [] cs) = t" by simp
    then have "drop (length c) t = reassemble cs (breaks [] cs)" by auto
    with Nil have r: "reassemble cs (breaks [] cs) = []" by simp
    from Cons.IH[OF r] obtain offs where "placed_at [] cs offs" by blast
    from placed_at_Cons[OF this, of c "[]"] eq r show ?thesis by auto
  next
    case d: (Cons x xs)
    show ?thesis
    proof (cases "x = nl")
      case True
      with d Cons.prems have eq: "c @ [nl] @ reassemble cs (breaks xs cs) = t" by simp
      then have "drop (length c) t = nl # reassemble cs (breaks xs cs)" by auto
      with d have r: "reassemble cs (breaks xs cs) = xs" by simp
      from Cons.IH[OF r] obtain offs where "placed_at xs cs offs" by blast
      from placed_at_Cons[OF this, of c "[nl]"] eq r show ?thesis by auto
    next
      case False
      with d Cons.prems have eq: "c @ reassemble cs (breaks (x # xs) cs) = t" by simp
      then have "drop (length c) t = reassemble cs (breaks (x # xs) cs)" by auto
      with d have r: "reassemble cs (breaks (x # xs) cs) = x # xs" by simp
      from Cons.IH[OF r] obtain offs where "placed_at (x # xs) cs offs" by blast
      from placed_at_Cons[OF this, of c "[]"] eq r show ?thesis by auto
    qed
  qed
qed

text \<open>
  C4: for every text \<open>T\<close> and maximum length \<open>L\<close>, every segment that \<open>splitMessage\<close>
  returns has length at most \<open>L\<close>; the segments appear in the original order: they are
  pieces of \<open>T\<close> at increasing offsets, each ending before the next starts (so their
  concatenation is a subsequence of \<open>T\<close>); and when the length of \<open>T\<close> is at most
  \<open>L\<close> the result is \<open>[T]\<close>. A result is returned whenever \<open>L \<ge> 1\<close>.
\<close>

theorem splitMessage_segments:
  "(length T \<le> L \<longrightarrow> splitMessage T L = Some [T]) \<and>
   (0 < L \<longrightarrow> splitMessage T L \<noteq> None) \<and>
   (\<forall>chunks. splitMessage T L = Some chunks \<longrightarrow>
      (\<forall>c \<in> set chunks. length c \<le> L) \<and> subseq (concat chunks) T
      \<and> (\<exists>offs. placed_at T chunks offs))"
proof (intro conjI allI impI)
  show "splitMessage T L = Some [T]" if "length T \<le> L" using that by (simp add: splitMessage_def)
  show "splitMessage T L \<noteq> None" if "0 < L" using that by (rule splitMessage_returns)
  show "\<forall>c \<in> set chunks. length c \<le> L" if "splitMessage T L = Some chunks" for chunks
    using splitMessage_partial[OF that] by (simp add: seg_ok_def)
  show "subseq (concat chunks) T" if "splitMessage T L = Some chunks" for chunks
    using splitMessage_partial[OF that] by (simp add: seg_ok_def)
  show "\<exists>offs. placed_at T chunks offs" if "splitMessage T L = Some chunks" for chunks
    using splitMessage_partial[OF that] by (simp add: seg_ok_def reassemble_placed)
qed

theorem splitMessage_segments_witness:
  "splitMessage (js ''ab'' @ [nl] @ js ''cdefgh'') 4 = Some [js ''ab'', js ''cdef'', js ''gh'']
   \<and> length (js ''ab'') \<le> 4 \<and> length (js ''cdef'') \<le> 4 \<and> length (js ''gh'') \<le> 4
   \<and> subseq (js ''ab'' @ js ''cdef'' @ js ''gh'') (js ''ab'' @ [nl] @ js ''cdefgh'')
   \<and> placed_at (js ''ab'' @ [nl] @ js ''cdefgh'') [js ''ab'', js ''cdef'', js ''gh''] [0, 3, 7]
   \<and> splitMessage (js ''ab'') 4 = Some [js ''ab'']"
proof -
  have run: "splitMessage (js ''ab'' @ [nl] @ js ''cdefgh'') 4
               = Some [js ''ab'', js ''cdef'', js ''gh'']"
    by code_simp
  have short: "length (js ''ab'') \<le> 4" by (simp add: js_def)
  have pos: "0 < (4::nat)" by simp
  have at: "placed_at (js ''ab'' @ [nl] @ js ''cdefgh'') [js ''ab'', js ''cdef'', js ''gh''] [0, 3, 7]"
    by code_simp
  from splitMessage_segments[of "js ''ab'' @ [nl] @ js ''cdefgh''" 4] run pos
  have a: "length (js ''ab'') \<le> 4 \<and> length (js ''cdef'') \<le> 4 \<and> length (js ''gh'') \<le> 4
      \<and> subseq (js ''ab'' @ js ''cdef'' @ js ''gh'') (js ''ab'' @ [nl] @ js ''cdefgh'')"
    by simp
  from splitMessage_segments[of "js ''ab''" 4] short
  have b: "splitMessage (js ''ab'') 4 = Some [js ''ab'']" by blast
  from run a b at show ?thesis by blast
qed

section \<open>The formatter\<close>



lemma ms_Seq_empty: "(\<And>st'. st' \<in> set (ms a st) \<Longrightarrow> ms b st' = []) \<Longrightarrow> ms (Seq a b) st = []"
  by simp

text \<open>A literal that the rest of the text does not hold cannot start a match.\<close>

lemma ms_Lit_absent: "d \<notin> set r \<Longrightarrow> ms (Lit d) (p, r, c) = []"
  by (cases r) (auto simp: Lit_def)

lemma ms_Seq_Lit_absent: "d \<notin> set r \<Longrightarrow> ms (Seq (Lit d) e) (p, r, c) = []"
  by (simp add: ms_Lit_absent)

lemma ms_NotBehind_Lit_absent: "d \<notin> set r \<Longrightarrow> ms (Seq (NotBehind P) (Seq (Lit d) e)) (p, r, c) = []"
  by (cases p) (auto simp: ms_Lit_absent)

lemma nomatchI: "(\<And>p r. rev p @ r = t \<Longrightarrow> ms e (p, r, []) = []) \<Longrightarrow> nomatch e t"
  by (simp add: nomatch_def)

lemma no_delims_append: "no_delims (a @ b) = (no_delims a \<and> no_delims b)"
  by (simp add: no_delims_def)

lemma no_delims_absent:
  assumes "no_delims r"
  shows "42 \<notin> set r" "95 \<notin> set r" "126 \<notin> set r" "96 \<notin> set r" "91 \<notin> set r"
  using assms unfolding no_delims_def list_all_iff by blast+

lemma no_delims_set:
  assumes "no_delims t" "rev p @ r = t"
  shows "42 \<notin> set r" "95 \<notin> set r" "126 \<notin> set r" "96 \<notin> set r" "91 \<notin> set r"
proof -
  have "no_delims r" using assms no_delims_append[of "rev p" r] by simp
  then show "42 \<notin> set r" "95 \<notin> set r" "126 \<notin> set r" "96 \<notin> set r" "91 \<notin> set r"
    by (rule no_delims_absent)+
qed

lemma nomatch_bold_star: "no_delims t \<Longrightarrow> nomatch re_bold_star t"
  by (rule nomatchI) (simp add: re_bold_star_def ms_Seq_Lit_absent no_delims_set del: ms.simps)

lemma nomatch_bold_under: "no_delims t \<Longrightarrow> nomatch re_bold_under t"
  by (rule nomatchI) (simp add: re_bold_under_def ms_Seq_Lit_absent no_delims_set del: ms.simps)

lemma nomatch_italic_star: "no_delims t \<Longrightarrow> nomatch re_italic_star t"
  by (rule nomatchI) (simp add: re_italic_star_def ms_NotBehind_Lit_absent no_delims_set del: ms.simps)

lemma nomatch_italic_under: "no_delims t \<Longrightarrow> nomatch re_italic_under t"
  by (rule nomatchI) (simp add: re_italic_under_def ms_NotBehind_Lit_absent no_delims_set del: ms.simps)

lemma nomatch_inline_code: "no_delims t \<Longrightarrow> nomatch re_inline_code t"
  by (rule nomatchI) (simp add: re_inline_code_def ms_Seq_Lit_absent no_delims_set del: ms.simps)

lemma nomatch_code_block: "no_delims t \<Longrightarrow> nomatch re_code_block t"
  by (rule nomatchI) (simp add: re_code_block_def ms_Seq_Lit_absent no_delims_set del: ms.simps)

lemma nomatch_strike: "no_delims t \<Longrightarrow> nomatch re_strike t"
  by (rule nomatchI) (simp add: re_strike_def ms_Seq_Lit_absent no_delims_set del: ms.simps)

lemma nomatch_link: "no_delims t \<Longrightarrow> nomatch re_link t"
  by (rule nomatchI) (simp add: re_link_def ms_Seq_Lit_absent no_delims_set del: ms.simps)


text \<open>Where a greedy or lazy run of single characters can stop.\<close>

lemma star_chr_states:
  "st' \<in> set (ms (Star g (Chr P)) (p, r, c)) \<Longrightarrow>
     \<exists>w r'. r = w @ r' \<and> (\<forall>x \<in> set w. P x) \<and> st' = (rev w @ p, r', c)"
proof (induction r arbitrary: p)
  case Nil
  then show ?case by (simp split: if_splits)
next
  case (Cons x xs)
  show ?case
  proof (cases "P x")
    case False
    with Cons.prems have "st' = (p, x # xs, c)" by (simp split: if_splits)
    then show ?thesis by simp
  next
    case True
    with Cons.prems have "st' = (p, x # xs, c) \<or> st' \<in> set (ms (Star g (Chr P)) (x # p, xs, c))"
      by (auto simp del: ms.simps(5) simp add: ms.simps(5)[of g "Chr P" p "x # xs" c] Let_def
          split: if_splits)
    then show ?thesis
    proof
      assume "st' = (p, x # xs, c)"
      then show ?thesis by simp
    next
      assume "st' \<in> set (ms (Star g (Chr P)) (x # p, xs, c))"
      from Cons.IH[OF this] obtain w r' where
        w: "xs = w @ r'" "\<forall>x \<in> set w. P x" "st' = (rev w @ x # p, r', c)" by blast
      have "x # xs = (x # w) @ r'" using w by simp
      moreover have "\<forall>y \<in> set (x # w). P y" using w True by simp
      moreover have "st' = (rev (x # w) @ p, r', c)" using w by simp
      ultimately show ?thesis by blast
    qed
  qed
qed

lemma plus_chr_states:
  assumes "st' \<in> set (ms (Plus g (Chr P)) (p, r, c))"
  shows "\<exists>w r'. w \<noteq> [] \<and> r = w @ r' \<and> (\<forall>x \<in> set w. P x) \<and> st' = (rev w @ p, r', c)"
proof (cases r)
  case Nil
  with assms show ?thesis by (simp add: Plus_def)
next
  case (Cons x xs)
  show ?thesis
  proof (cases "P x")
    case False
    with assms Cons show ?thesis by (simp add: Plus_def)
  next
    case True
    with assms Cons have "st' \<in> set (ms (Star g (Chr P)) (x # p, xs, c))"
      by (simp add: Plus_def del: ms.simps(5))
    from star_chr_states[OF this] obtain w r' where
      w: "xs = w @ r'" "\<forall>x \<in> set w. P x" "st' = (rev w @ x # p, r', c)" by blast
    have "x # w \<noteq> []" by simp
    moreover have "r = (x # w) @ r'" using w Cons by simp
    moreover have "\<forall>y \<in> set (x # w). P y" using w True by simp
    moreover have "st' = (rev (x # w) @ p, r', c)" using w by simp
    ultimately show ?thesis by blast
  qed
qed

text \<open>The line-position automaton along a text.\<close>

lemma no_line_markers_append:
  "no_line_markers s (w @ r) = (no_line_markers s w \<and> no_line_markers (foldl lnext s w) r)"
  by (induction w arbitrary: s) auto

lemma is_lt_space: "is_lt x \<Longrightarrow> is_space x"
  by (auto simp: is_lt_def is_space_def)

lemma is_digit_not_space: "is_digit x \<Longrightarrow> \<not> is_space x \<and> \<not> is_lt x"
  by (auto simp: is_digit_def is_space_def is_lt_def)

lemma lnext_lt: "is_lt x \<Longrightarrow> lnext s x = AtStart"
  by (cases s) (simp_all add: is_lt_space)

lemma run_spaces: "\<forall>x \<in> set w. is_space x \<Longrightarrow> foldl lnext AtStart w = AtStart"
  by (induction w) auto

lemma run_digits_in: "\<forall>x \<in> set w. is_digit x \<Longrightarrow> foldl lnext InDigits w = InDigits"
  by (induction w) (auto simp: is_digit_not_space)

lemma run_digits: "\<forall>x \<in> set w. is_digit x \<Longrightarrow> w \<noteq> [] \<Longrightarrow> foldl lnext AtStart w = InDigits"
  by (cases w) (auto simp: is_digit_not_space run_digits_in)

lemma at_bol:
  assumes "no_line_markers AtStart (rev p @ r)" and "ms (Bol True) (p, r, c) \<noteq> []"
  shows "no_line_markers AtStart r"
proof (cases p)
  case Nil
  with assms show ?thesis by simp
next
  case (Cons x p')
  with assms(2) have "is_lt x" by (simp split: if_splits)
  then have "foldl lnext AtStart (rev p) = AtStart" using Cons by (simp add: lnext_lt)
  then show ?thesis using assms(1) by (simp add: no_line_markers_append)
qed

lemma ms_Bol_states: "ms (Bol True) (p, r, c) = [] \<or> ms (Bol True) (p, r, c) = [(p, r, c)]"
  by (cases p) auto

text \<open>After \<open>^\<close>: an expression \<open>e\<close> that cannot match at the start of a line of
  marker-free text (after what lies before it, whatever that is) makes \<open>^e\<close> match nowhere.\<close>

lemma nomatch_bol:
  assumes t: "no_line_markers AtStart t"
    and e: "\<And>p r. no_line_markers AtStart r \<Longrightarrow> rev p @ r = t \<Longrightarrow> ms e (p, r, []) = []"
  shows "nomatch (Seq (Bol True) e) t"
proof (rule nomatchI)
  fix p r assume pr: "rev p @ r = t"
  show "ms (Seq (Bol True) e) (p, r, []) = []"
  proof (cases "ms (Bol True) (p, r, []) = []")
    case True
    then show ?thesis by simp
  next
    case False
    then have b: "ms (Bol True) (p, r, []) = [(p, r, [])]" using ms_Bol_states by blast
    have "no_line_markers AtStart r" using at_bol[of p r "[]"] t pr False by simp
    then have "ms e (p, r, []) = []" using e pr by blast
    then show ?thesis using b by simp
  qed
qed

lemma no_marker_head:
  "no_line_markers s r \<Longrightarrow> lbad s d \<Longrightarrow> ms (Lit d) (p, r, c) = []"
  by (cases r) (auto simp: Lit_def)

lemma Between_one: "Between 1 m e = Seq e (UpTo (m - 1) e)"
  by simp


lemma AtLeast_three: "AtLeast 3 e = Seq e (Seq e (Seq e (Star True e)))"
  by (simp add: numeral_3_eq_3)

lemma nomatch_header:
  assumes "no_line_markers AtStart t"
  shows "nomatch re_header t"
  unfolding re_header_def Seqs.simps Between_one
  by (rule nomatch_bol[OF assms]) (simp add: no_marker_head del: ms.simps(2))

lemma ms_Chr_fails: "(\<And>x xs. r = x # xs \<Longrightarrow> \<not> P x) \<Longrightarrow> ms (Chr P) (p, r, c) = []"
  by (cases r) auto

lemma head_not_marker:
  "no_line_markers AtStart r \<Longrightarrow> no_delims r \<Longrightarrow> r = x # xs \<Longrightarrow> x \<noteq> 45 \<and> x \<noteq> 42 \<and> x \<noteq> 43"
  by (auto simp: no_delims_def)

lemma nomatch_rule:
  assumes "no_line_markers AtStart t" "no_delims t"
  shows "nomatch re_rule t"
  unfolding re_rule_def Seqs.simps AtLeast_three
proof (rule nomatch_bol[OF assms(1)])
  fix p r assume r: "no_line_markers AtStart r" "rev p @ r = t"
  have "no_delims r" using assms(2) r(2) no_delims_append[of "rev p" r] by simp
  then have "ms (Chr (\<lambda>c. c = 45 \<or> c = 42)) (p, r, []) = []"
    using head_not_marker[OF r(1)] by (intro ms_Chr_fails) blast
  then show "ms (Seq (Seq (Chr (\<lambda>c. c = 45 \<or> c = 42))
               (Seq (Chr (\<lambda>c. c = 45 \<or> c = 42))
                 (Seq (Chr (\<lambda>c. c = 45 \<or> c = 42)) (Star True (Chr (\<lambda>c. c = 45 \<or> c = 42))))))
             (Eol True)) (p, r, []) = []"
    by (simp del: ms.simps(2) ms.simps(5))
qed

lemma nomatch_bullet:
  assumes "no_line_markers AtStart t" "no_delims t"
  shows "nomatch re_bullet t"
  unfolding re_bullet_def Seqs.simps
proof (rule nomatch_bol[OF assms(1)])
  fix p r assume r: "no_line_markers AtStart r" "rev p @ r = t"
  have nd: "no_delims r" using assms(2) r(2) no_delims_append[of "rev p" r] by simp
  show "ms (Seq (Star True (Chr is_space))
             (Seq (Chr (\<lambda>c. c = 45 \<or> c = 42 \<or> c = 43)) (Plus True (Chr is_space)))) (p, r, []) = []"
  proof (rule ms_Seq_empty)
    fix st' assume "st' \<in> set (ms (Star True (Chr is_space)) (p, r, []))"
    from star_chr_states[OF this] obtain w r' where
      w: "r = w @ r'" "\<forall>x \<in> set w. is_space x" "st' = (rev w @ p, r', [])" by blast
    have a: "no_line_markers AtStart r'"
      using r(1) w(1,2) by (simp add: no_line_markers_append run_spaces)
    have b: "no_delims r'" using nd w(1) by (simp add: no_delims_append)
    have "ms (Chr (\<lambda>c. c = 45 \<or> c = 42 \<or> c = 43)) (rev w @ p, r', []) = []"
      using head_not_marker[OF a b] by (intro ms_Chr_fails) blast
    then show "ms (Seq (Chr (\<lambda>c. c = 45 \<or> c = 42 \<or> c = 43)) (Plus True (Chr is_space))) st' = []"
      using w(3) by (simp del: ms.simps(2))
  qed
qed

lemma nomatch_numbered:
  assumes "no_line_markers AtStart t"
  shows "nomatch re_numbered t"
  unfolding re_numbered_def Seqs.simps
proof (rule nomatch_bol[OF assms(1)])
  fix p r assume r: "no_line_markers AtStart r" "rev p @ r = t"
  show "ms (Seq (Star True (Chr is_space))
             (Seq (Plus True (Chr is_digit)) (Seq (Lit 46) (Plus True (Chr is_space))))) (p, r, []) = []"
  proof (rule ms_Seq_empty)
    fix st' assume "st' \<in> set (ms (Star True (Chr is_space)) (p, r, []))"
    from star_chr_states[OF this] obtain w r' where
      w: "r = w @ r'" "\<forall>x \<in> set w. is_space x" "st' = (rev w @ p, r', [])" by blast
    have a: "no_line_markers AtStart r'"
      using r(1) w(1,2) by (simp add: no_line_markers_append run_spaces)
    have "ms (Seq (Plus True (Chr is_digit)) (Seq (Lit 46) (Plus True (Chr is_space))))
            (rev w @ p, r', []) = []"
    proof (rule ms_Seq_empty)
      fix st'' assume "st'' \<in> set (ms (Plus True (Chr is_digit)) (rev w @ p, r', []))"
      from plus_chr_states[OF this] obtain v r'' where
        v: "v \<noteq> []" "r' = v @ r''" "\<forall>x \<in> set v. is_digit x" "st'' = (rev v @ rev w @ p, r'', [])"
        by blast
      have "no_line_markers InDigits r''"
        using a v(1,2,3) by (simp add: no_line_markers_append run_digits)
      then have "ms (Lit 46) (rev v @ rev w @ p, r'', []) = []"
        by (rule no_marker_head) simp
      then show "ms (Seq (Lit 46) (Plus True (Chr is_space))) st'' = []"
        using v(4) by simp
    qed
    then show "ms (Seq (Plus True (Chr is_digit)) (Seq (Lit 46) (Plus True (Chr is_space)))) st' = []"
      using w(3) by simp
  qed
qed





lemma re_test_nomatch: "nomatch e (rev p @ r) \<Longrightarrow> \<not> re_test e p r"
proof (induction r arbitrary: p)
  case Nil
  then have "ms e (p, [], []) = []" by (simp add: nomatch_def)
  then show ?case by (subst re_test.simps) simp
next
  case (Cons x xs)
  then have m: "ms e (p, x # xs, []) = []" by (simp add: nomatch_def)
  have "nomatch e (rev (x # p) @ xs)" using Cons.prems by simp
  then have "\<not> re_test e (x # p) xs" by (rule Cons.IH)
  then show ?case using m by (subst re_test.simps) simp
qed

lemma nomatch_not_found: "nomatch e t \<Longrightarrow> \<not> re_test e [] t"
  using re_test_nomatch[of e "[]" t] by simp

text \<open>Texts free of the delimiter characters and of line-start markers are without
  markup.\<close>

lemma plain_chars_no_markup:
  assumes "plain_chars t"
  shows "no_markup t"
proof -
  have d: "no_delims t" and l: "no_line_markers AtStart t"
    using assms by (simp_all add: plain_chars_def)
  show ?thesis
    unfolding no_markup_def markup_patterns_def
    by (simp add: nomatch_not_found nomatch_header[OF l] nomatch_bold_star[OF d]
        nomatch_bold_under[OF d] nomatch_italic_star[OF d] nomatch_italic_under[OF d]
        nomatch_inline_code[OF d] nomatch_code_block[OF d] nomatch_strike[OF d]
        nomatch_link[OF d] nomatch_rule[OF l d] nomatch_bullet[OF l d] nomatch_numbered[OF l])
qed




section \<open>The Telegram helper\<close>

text \<open>Erasing matches never makes a text longer.\<close>

lemma replace_g_erase_length: "length (replace_g e (\<lambda>c. []) p r) \<le> length r"
proof (induction "length r" arbitrary: p r rule: less_induct)
  case less
  have skip: "length (case r of [] \<Rightarrow> [] | x # xs \<Rightarrow> x # replace_g e (\<lambda>c. []) (x # p) xs) \<le> length r"
  proof (cases r)
    case Nil
    then show ?thesis by simp
  next
    case (Cons x xs)
    then have "length xs < length r" by simp
    from less[OF this, of "x # p"] Cons show ?thesis by simp
  qed
  show ?case
  proof (cases "ms e (p, r, [])")
    case Nil
    then show ?thesis using skip by (subst replace_g.simps) simp
  next
    case (Cons m rest)
    obtain p' r' c' where m: "m = (p', r', c')" by (cases m) auto
    show ?thesis
    proof (cases "length r' < length r")
      case True
      from less[OF True, of p'] have "length (replace_g e (\<lambda>c. []) p' r') \<le> length r"
        using True by simp
      then show ?thesis using Cons m True by (subst replace_g.simps) simp
    next
      case False
      then show ?thesis using Cons m skip by (subst replace_g.simps) simp
    qed
  qed
qed

lemma safe_text_length: "int (length (safe_text text)) \<le> 4096"
  by (auto simp: safe_text_def substring_take js_def)

lemma js_text_keys:
  "js ''text'' \<noteq> js ''chat_id''" "js ''text'' \<noteq> js ''parse_mode''"
  "js ''text'' \<noteq> js ''disable_web_page_preview''"
  by (simp_all add: js_def)

lemma tg_body_text:
  assumes "js ''text'' \<notin> fst ` set options"
  shows "get (tg_body cfg chatId [(js ''text'', JStr s), (js ''parse_mode'', a), (js ''disable_web_page_preview'', b)] options) (js ''text'') = JStr s"
    and "get (tg_body cfg chatId [(js ''text'', JStr s)] options) (js ''text'') = JStr s"
proof -
  have n: "map_of (rev options) (js ''text'') = None"
    using assms by (simp add: map_of_eq_None_iff)
  show "get (tg_body cfg chatId [(js ''text'', JStr s), (js ''parse_mode'', a), (js ''disable_web_page_preview'', b)] options) (js ''text'') = JStr s"
    using n js_text_keys by (simp add: tg_body_def map_add_def)
  show "get (tg_body cfg chatId [(js ''text'', JStr s)] options) (js ''text'') = JStr s"
    using n js_text_keys by (simp add: tg_body_def map_add_def)
qed

lemma sendTelegram_unfold:
  "sendTelegram e cfg chatId text options w =
     (if TELEGRAM_BOT_TOKEN cfg = [] then
        (Inr (JObj [(js ''success'', JBool False), (js ''error'', JStr (js ''Bot not configured''))]), w)
      else
        case fetch e (tg_first cfg chatId text options) w of (res, w1) \<Rightarrow>
          (case res of
             Failed msg \<Rightarrow> (Inl msg, w1)
           | Resp ok st err dat \<Rightarrow>
               if \<not> ok then
                 (if includes_str err (js ''can'' @ [39] @ js ''t parse entities'') then
                    (case fetch e (tg_plain cfg chatId text options) w1 of (plainRes, w2) \<Rightarrow>
                       (case plainRes of
                          Failed msg \<Rightarrow> (Inl msg, w2)
                        | Resp ok2 st2 txt2 dat2 \<Rightarrow>
                            if ok2 then (Inr (JObj [(js ''success'', JBool True)]), w2)
                            else (Inr (JObj [(js ''success'', JBool False), (js ''error'', JStr err)]), w2)))
                  else (Inr (JObj [(js ''success'', JBool False), (js ''error'', JStr err)]), w1))
               else (Inr (JObj [(js ''success'', JBool True)]), w1)))"
  unfolding sendTelegram_def tg_first_def tg_plain_def safe_text_def Let_def by (rule refl)

lemma sendTelegram_sent:
  "sent (snd (sendTelegram e cfg chatId text options w)) =
     (if TELEGRAM_BOT_TOKEN cfg = [] then sent w
      else case respond e (length (sent w)) (tg_first cfg chatId text options) of
             Failed msg \<Rightarrow> sent w @ [tg_first cfg chatId text options]
           | Resp ok st err dat \<Rightarrow>
               if \<not> ok \<and> includes_str err (js ''can'' @ [39] @ js ''t parse entities'')
               then sent w @ [tg_first cfg chatId text options, tg_plain cfg chatId text options]
               else sent w @ [tg_first cfg chatId text options])"
  unfolding sendTelegram_unfold
  by (simp add: fetch_def split: response.splits)

text \<open>
  C10: for every input text, every request that \<open>sendTelegram\<close> submits to the
  \<open>sendMessage\<close> endpoint carries a \<open>text\<close> of at most 4096 code units: the first
  request carries the text itself, or its first 4090 code units followed by a line
  break and three dots when it is longer than 4096, and the plain-text request sent
  after a markup rejection carries that text with its tags erased. No call site of the
  source passes \<open>options\<close>; the statement covers every \<open>options\<close> object without a
  \<open>text\<close> property of its own.
\<close>

theorem sendTelegram_text_limit:
  assumes "js ''text'' \<notin> fst ` set options"
  shows "\<exists>new. sent (snd (sendTelegram e cfg chatId text options w)) = sent w @ new
           \<and> (\<forall>q \<in> set new. \<exists>t. get (body q) (js ''text'') = JStr t \<and> int (length t) \<le> 4096)
           \<and> (TELEGRAM_BOT_TOKEN cfg \<noteq> [] \<longrightarrow>
                (\<exists>q rest. new = q # rest \<and> get (body q) (js ''text'')
                   = JStr (if int (length text) > 4096
                           then substring text 0 4090 @ [nl] @ js ''...'' else text)))"
proof -
  let ?q1 = "tg_first cfg chatId text options" and ?q2 = "tg_plain cfg chatId text options"
  have t1: "get (body ?q1) (js ''text'') = JStr (safe_text text)"
    by (simp add: tg_first_def tg_body_text(1)[OF assms])
  have t2: "get (body ?q2) (js ''text'') = JStr (replace_g re_tag (\<lambda>c. []) [] (safe_text text))"
    by (simp add: tg_plain_def tg_body_text(2)[OF assms])
  have l1: "int (length (safe_text text)) \<le> 4096" by (rule safe_text_length)
  have l2: "int (length (replace_g re_tag (\<lambda>c. []) [] (safe_text text))) \<le> 4096"
    using replace_g_erase_length[of re_tag "[]" "safe_text text"] l1 by linarith
  have s: "safe_text text = (if int (length text) > 4096
                           then substring text 0 4090 @ [nl] @ js ''...'' else text)"
    by (simp add: safe_text_def)
  have "(TELEGRAM_BOT_TOKEN cfg = [] \<and> sent (snd (sendTelegram e cfg chatId text options w)) = sent w)
      \<or> (TELEGRAM_BOT_TOKEN cfg \<noteq> []
          \<and> sent (snd (sendTelegram e cfg chatId text options w)) = sent w @ [?q1])
      \<or> (TELEGRAM_BOT_TOKEN cfg \<noteq> []
          \<and> sent (snd (sendTelegram e cfg chatId text options w)) = sent w @ [?q1, ?q2])"
    unfolding sendTelegram_sent by (simp split: response.splits)
  then consider (off) "TELEGRAM_BOT_TOKEN cfg = []"
        "sent (snd (sendTelegram e cfg chatId text options w)) = sent w"
    | (one) "TELEGRAM_BOT_TOKEN cfg \<noteq> []"
        "sent (snd (sendTelegram e cfg chatId text options w)) = sent w @ [?q1]"
    | (two) "TELEGRAM_BOT_TOKEN cfg \<noteq> []"
        "sent (snd (sendTelegram e cfg chatId text options w)) = sent w @ [?q1, ?q2]"
    by blast
  then show ?thesis
  proof cases
    case off
    show ?thesis using off by (intro exI[of _ "[]"]) simp
  next
    case one
    show ?thesis using one(2) t1 l1 s by (intro exI[of _ "[?q1]"]) simp
  next
    case two
    show ?thesis using two(2) t1 t2 l1 l2 s by (intro exI[of _ "[?q1, ?q2]"]) simp
  qed
qed

theorem sendTelegram_text_limit_witness:
  "js ''text'' \<notin> fst ` set ([] :: (jsstr \<times> jv) list)
   \<and> sent (snd (sendTelegram
         (scripted [Resp False 400 (js ''Bad Request: can'' @ [39] @ js ''t parse entities'') (Inr JNull),
                    Resp True 200 [] (Inr JNull)])
         demo_config JUndef (js ''<b>x < y'') [] idle))
       = [tg_first demo_config JUndef (js ''<b>x < y'') [], tg_plain demo_config JUndef (js ''<b>x < y'') []]
   \<and> get (body (tg_first demo_config JUndef (js ''<b>x < y'') [])) (js ''text'') = JStr (js ''<b>x < y'')
   \<and> get (body (tg_plain demo_config JUndef (js ''<b>x < y'') [])) (js ''text'') = JStr (js ''x < y'')
   \<and> int (length (js ''<b>x < y'')) \<le> 4096"
proof -
  have h: "js ''text'' \<notin> fst ` set ([] :: (jsstr \<times> jv) list)" by simp
  have run: "sent (snd (sendTelegram
         (scripted [Resp False 400 (js ''Bad Request: can'' @ [39] @ js ''t parse entities'') (Inr JNull),
                    Resp True 200 [] (Inr JNull)])
         demo_config JUndef (js ''<b>x < y'') [] idle))
       = [tg_first demo_config JUndef (js ''<b>x < y'') [], tg_plain demo_config JUndef (js ''<b>x < y'') []]"
    by code_simp
  have a: "get (body (tg_first demo_config JUndef (js ''<b>x < y'') [])) (js ''text'') = JStr (js ''<b>x < y'')"
    by code_simp
  have b: "get (body (tg_plain demo_config JUndef (js ''<b>x < y'') [])) (js ''text'') = JStr (js ''x < y'')"
    by code_simp
  from sendTelegram_text_limit[OF h, of "scripted [Resp False 400 (js ''Bad Request: can'' @ [39] @ js ''t parse entities'') (Inr JNull),
                    Resp True 200 [] (Inr JNull)]" demo_config JUndef "js ''<b>x < y''" idle]
  have "int (length (js ''<b>x < y'')) \<le> 4096"
    unfolding run using a by (auto simp: idle_def)
  with h run a b show ?thesis by blast
qed

section \<open>The reasoning client\<close>

lemma queryApollo_stale:
  assumes "or_else userMessage (JStr []) = JStr raw" "trim raw \<noteq> []"
    and "conversationMap w chatId = Some cid" "truthy cid"
    and "respond e (length (sent w)) (converse_request cfg (trim raw) cid) = Resp False st err parsed"
    and "includes_str err (js ''not found'')"
  shows "queryApollo e cfg userMessage chatId w
           = queryApollo e cfg userMessage chatId (after_stale cfg (trim raw) cid chatId w)"
  using assms
  by (subst queryApollo.simps) (simp add: conv_get_def fetch_def after_stale_def Let_def)

lemma queryApollo_fresh:
  assumes "or_else userMessage (JStr []) = JStr raw" "trim raw \<noteq> []"
    and "conversationMap w chatId = None"
  shows "sent (snd (queryApollo e cfg userMessage chatId w))
           = sent w @ [converse_request cfg (trim raw) JUndef]"
    and "respond e (length (sent w)) (converse_request cfg (trim raw) JUndef) = Resp False st err parsed
           \<Longrightarrow> queryApollo e cfg userMessage chatId w
                 = (Inl (api_error e st err), w\<lparr>sent := sent w @ [converse_request cfg (trim raw) JUndef]\<rparr>)"
    and "respond e (length (sent w)) (converse_request cfg (trim raw) JUndef) = Failed msg
           \<Longrightarrow> queryApollo e cfg userMessage chatId w
                 = (Inl msg, w\<lparr>sent := sent w @ [converse_request cfg (trim raw) JUndef]\<rparr>)"
proof -
  show "sent (snd (queryApollo e cfg userMessage chatId w))
           = sent w @ [converse_request cfg (trim raw) JUndef]"
    using assms
    by (subst queryApollo.simps)
       (simp add: conv_get_def fetch_def Let_def split: response.splits sum.splits)
  show "queryApollo e cfg userMessage chatId w
          = (Inl (api_error e st err), w\<lparr>sent := sent w @ [converse_request cfg (trim raw) JUndef]\<rparr>)"
    if "respond e (length (sent w)) (converse_request cfg (trim raw) JUndef) = Resp False st err parsed"
    using assms that
    by (subst queryApollo.simps) (simp add: conv_get_def fetch_def Let_def api_error_def)
  show "queryApollo e cfg userMessage chatId w
          = (Inl msg, w\<lparr>sent := sent w @ [converse_request cfg (trim raw) JUndef]\<rparr>)"
    if "respond e (length (sent w)) (converse_request cfg (trim raw) JUndef) = Failed msg"
    using assms that
    by (subst queryApollo.simps) (simp add: conv_get_def fetch_def Let_def)
qed

lemma js_conv_keys:
  "js ''conversation_id'' \<noteq> js ''agent_id''" "js ''conversation_id'' \<noteq> js ''input''"
  by (simp_all add: js_def)

lemma converse_request_session:
  "truthy cid \<Longrightarrow> get (body (converse_request cfg input cid)) (js ''conversation_id'') = cid"
  "\<not> truthy cid \<Longrightarrow> get (body (converse_request cfg input cid)) (js ''conversation_id'') = JUndef"
  using js_conv_keys by (simp_all add: converse_request_def)

text \<open>
  C1: for every prompt that reaches the reasoning engine (a string that is not blank
  after trimming) and every channel with a stored session id: the first request carries
  the session id; if the engine's first response is a failure whose message contains
  \<open>not found\<close>, then \<open>queryApollo\<close> goes on as a run that starts with the session of
  the channel deleted, that run sends exactly one more request, which carries no
  session id, and a failure of that request (a response that is not \<open>ok\<close>, or a
  rejected \<open>fetch\<close>) is thrown as an error: two requests in all, whatever the second
  response is.
\<close>

theorem queryApollo_retry_once:
  assumes "or_else userMessage (JStr []) = JStr raw" "trim raw \<noteq> []"
    and "conversationMap w chatId = Some cid" "truthy cid"
    and "respond e (length (sent w)) (converse_request cfg (trim raw) cid) = Resp False st err parsed"
    and "includes_str err (js ''not found'')"
  shows "queryApollo e cfg userMessage chatId w
           = queryApollo e cfg userMessage chatId (after_stale cfg (trim raw) cid chatId w)
         \<and> conversationMap (after_stale cfg (trim raw) cid chatId w) chatId = None
         \<and> sent (snd (queryApollo e cfg userMessage chatId w))
             = sent w @ [converse_request cfg (trim raw) cid, converse_request cfg (trim raw) JUndef]
         \<and> get (body (converse_request cfg (trim raw) cid)) (js ''conversation_id'') = cid
         \<and> get (body (converse_request cfg (trim raw) JUndef)) (js ''conversation_id'') = JUndef
         \<and> (\<forall>st2 err2 parsed2.
               respond e (Suc (length (sent w))) (converse_request cfg (trim raw) JUndef)
                 = Resp False st2 err2 parsed2
               \<longrightarrow> fst (queryApollo e cfg userMessage chatId w) = Inl (api_error e st2 err2))
         \<and> (\<forall>msg.
               respond e (Suc (length (sent w))) (converse_request cfg (trim raw) JUndef) = Failed msg
               \<longrightarrow> fst (queryApollo e cfg userMessage chatId w) = Inl msg)"
proof -
  let ?mid = "after_stale cfg (trim raw) cid chatId w"
  have eq: "queryApollo e cfg userMessage chatId w = queryApollo e cfg userMessage chatId ?mid"
    using assms by (rule queryApollo_stale)
  have gone: "conversationMap ?mid chatId = None" by (simp add: after_stale_def)
  have len: "length (sent ?mid) = Suc (length (sent w))" by (simp add: after_stale_def)
  have s: "sent ?mid = sent w @ [converse_request cfg (trim raw) cid]" by (simp add: after_stale_def)
  note fresh = queryApollo_fresh[OF assms(1,2) gone, of e cfg]
  have a: "sent (snd (queryApollo e cfg userMessage chatId w))
             = sent w @ [converse_request cfg (trim raw) cid, converse_request cfg (trim raw) JUndef]"
    unfolding eq fresh(1) s by simp
  have b: "fst (queryApollo e cfg userMessage chatId w) = Inl (api_error e st2 err2)"
    if "respond e (Suc (length (sent w))) (converse_request cfg (trim raw) JUndef)
          = Resp False st2 err2 parsed2" for st2 err2 parsed2
    unfolding eq using fresh(2)[of st2 err2 parsed2] that len by simp
  have c: "fst (queryApollo e cfg userMessage chatId w) = Inl msg"
    if "respond e (Suc (length (sent w))) (converse_request cfg (trim raw) JUndef) = Failed msg" for msg
    unfolding eq using fresh(3)[of msg] that len by simp
  show ?thesis
    using eq gone a b c converse_request_session(1)[OF assms(4)] converse_request_session(2)[of JUndef]
    by simp
qed


theorem queryApollo_retry_once_witness:
  "or_else (JStr (js ''status?'')) (JStr []) = JStr (js ''status?'')
   \<and> trim (js ''status?'') \<noteq> []
   \<and> conversationMap stale_world (JStr (js ''chat'')) = Some (JStr (js ''c1''))
   \<and> truthy (JStr (js ''c1''))
   \<and> respond stale_script (length (sent stale_world))
         (converse_request demo_config (trim (js ''status?'')) (JStr (js ''c1'')))
       = Resp False 404 (js ''conversation not found'') (Inr JNull)
   \<and> includes_str (js ''conversation not found'') (js ''not found'')
   \<and> sent (snd (queryApollo stale_script demo_config (JStr (js ''status?'')) (JStr (js ''chat''))
                    stale_world))
       = [converse_request demo_config (trim (js ''status?'')) (JStr (js ''c1'')),
          converse_request demo_config (trim (js ''status?'')) JUndef]
   \<and> fst (queryApollo stale_script demo_config (JStr (js ''status?'')) (JStr (js ''chat''))
              stale_world)
       = Inl (api_error stale_script 500 (js ''boom''))"
proof -
  have h1: "or_else (JStr (js ''status?'')) (JStr []) = JStr (js ''status?'')" by code_simp
  have h2: "trim (js ''status?'') \<noteq> []" by code_simp
  have h3: "conversationMap stale_world (JStr (js ''chat'')) = Some (JStr (js ''c1''))"
    by (simp add: stale_world_def)
  have h4: "truthy (JStr (js ''c1''))" by code_simp
  have h5: "respond stale_script (length (sent stale_world))
         (converse_request demo_config (trim (js ''status?'')) (JStr (js ''c1'')))
       = Resp False 404 (js ''conversation not found'') (Inr JNull)"
    by (simp add: stale_script_def scripted_def stale_world_def)
  have h6: "includes_str (js ''conversation not found'') (js ''not found'')" by code_simp
  have second: "respond stale_script (Suc (length (sent stale_world)))
         (converse_request demo_config (trim (js ''status?'')) JUndef)
       = Resp False 500 (js ''boom'') (Inr JNull)"
    by (simp add: stale_script_def scripted_def stale_world_def)
  note t = queryApollo_retry_once[OF h1 h2 h3 h4 h5 h6]
  have a: "sent (snd (queryApollo stale_script demo_config (JStr (js ''status?'')) (JStr (js ''chat''))
                    stale_world))
       = sent stale_world @ [converse_request demo_config (trim (js ''status?'')) (JStr (js ''c1'')),
          converse_request demo_config (trim (js ''status?'')) JUndef]"
    by (rule t[THEN conjunct2, THEN conjunct2, THEN conjunct1])
  have b: "fst (queryApollo stale_script demo_config (JStr (js ''status?'')) (JStr (js ''chat''))
              stale_world)
       = Inl (api_error stale_script 500 (js ''boom''))"
    by (rule t[THEN conjunct2, THEN conjunct2, THEN conjunct2, THEN conjunct2, THEN conjunct2,
          THEN conjunct1, rule_format, OF second])
  have e: "sent stale_world = []" by (simp add: stale_world_def)
  from a b e
  have "sent (snd (queryApollo stale_script demo_config (JStr (js ''status?'')) (JStr (js ''chat''))
                    stale_world))
       = [converse_request demo_config (trim (js ''status?'')) (JStr (js ''c1'')),
          converse_request demo_config (trim (js ''status?'')) JUndef]
     \<and> fst (queryApollo stale_script demo_config (JStr (js ''status?'')) (JStr (js ''chat''))
              stale_world)
       = Inl (api_error stale_script 500 (js ''boom''))"
    by simp
  with h1 h2 h3 h4 h5 h6 show ?thesis by blast
qed

section \<open>The scheduler\<close>

lemma scan_alert_length: "int (length (scan_alert reply)) \<le> 3833"
  by (simp add: scan_alert_def scan_header_def substring_take js_def)

lemma safe_text_scan_alert: "safe_text (scan_alert reply) = scan_alert reply"
  using scan_alert_length[of reply] by (simp add: safe_text_def)

text \<open>
  C5: for every scheduled-scan cycle with the alert channel configured (bot token and
  chat id set) in which the reasoning engine gives a reply: if the reply matches an
  all-clear phrasing, the cycle changes nothing beyond its query, so no alert goes out;
  if it matches none, the cycle is its query followed by exactly one call of
  \<open>sendTelegram\<close>, with the alert text: the header and the first 3800 code units of the
  formatted reply, at most 4096 code units, sent whole. That call sends one request,
  and the same alert once more as plain text only when Telegram rejected its markup.
\<close>

theorem autonomousScan_alert:
  assumes "TELEGRAM_BOT_TOKEN cfg \<noteq> []" "TELEGRAM_CHAT_ID cfg \<noteq> []"
    and "fst (scan_query e cfg w) = Inr reply"
  shows "(re_test re_healthy [] reply \<longrightarrow> autonomousScan e cfg w = snd (scan_query e cfg w))
       \<and> (\<not> re_test re_healthy [] reply \<longrightarrow>
            autonomousScan e cfg w
              = snd (sendTelegram e cfg (JStr (TELEGRAM_CHAT_ID cfg)) (scan_alert reply) []
                       (snd (scan_query e cfg w)))
            \<and> (sent (autonomousScan e cfg w)
                  = sent (snd (scan_query e cfg w))
                    @ [tg_first cfg (JStr (TELEGRAM_CHAT_ID cfg)) (scan_alert reply) []]
               \<or> sent (autonomousScan e cfg w)
                  = sent (snd (scan_query e cfg w))
                    @ [tg_first cfg (JStr (TELEGRAM_CHAT_ID cfg)) (scan_alert reply) [],
                       tg_plain cfg (JStr (TELEGRAM_CHAT_ID cfg)) (scan_alert reply) []])
            \<and> get (body (tg_first cfg (JStr (TELEGRAM_CHAT_ID cfg)) (scan_alert reply) []))
                  (js ''text'') = JStr (scan_alert reply)
            \<and> int (length (scan_alert reply)) \<le> 4096)"
proof -
  obtain w1 where q: "scan_query e cfg w = (Inr reply, w1)"
    using assms(3) by (cases "scan_query e cfg w") auto
  have healthy: "autonomousScan e cfg w = w1" if "re_test re_healthy [] reply"
    using that q by (simp add: autonomousScan_def scan_query_def Let_def)
  have alert: "autonomousScan e cfg w
      = snd (sendTelegram e cfg (JStr (TELEGRAM_CHAT_ID cfg)) (scan_alert reply) [] w1)"
    if "\<not> re_test re_healthy [] reply"
    using that q assms(1,2) by (simp add: autonomousScan_def scan_query_def Let_def scan_alert_def)
  have reqs: "sent (snd (sendTelegram e cfg (JStr (TELEGRAM_CHAT_ID cfg)) (scan_alert reply) [] w1))
                = sent w1 @ [tg_first cfg (JStr (TELEGRAM_CHAT_ID cfg)) (scan_alert reply) []]
           \<or> sent (snd (sendTelegram e cfg (JStr (TELEGRAM_CHAT_ID cfg)) (scan_alert reply) [] w1))
                = sent w1 @ [tg_first cfg (JStr (TELEGRAM_CHAT_ID cfg)) (scan_alert reply) [],
                             tg_plain cfg (JStr (TELEGRAM_CHAT_ID cfg)) (scan_alert reply) []]"
    unfolding sendTelegram_sent using assms(1) by (simp split: response.splits)
  have body_text: "get (body (tg_first cfg (JStr (TELEGRAM_CHAT_ID cfg)) (scan_alert reply) []))
                  (js ''text'') = JStr (scan_alert reply)"
    by (simp add: tg_first_def tg_body_text(1) safe_text_scan_alert)
  have len: "int (length (scan_alert reply)) \<le> 4096"
    using scan_alert_length[of reply] by simp
  show ?thesis using healthy alert reqs body_text len q by auto
qed


theorem autonomousScan_alert_witness:
  "TELEGRAM_BOT_TOKEN demo_config \<noteq> [] \<and> TELEGRAM_CHAT_ID demo_config \<noteq> []
   \<and> fst (scan_query calm_engine demo_config idle) = Inr (js ''All systems are normal.'')
   \<and> re_test re_healthy [] (js ''All systems are normal.'')
   \<and> autonomousScan calm_engine demo_config idle = snd (scan_query calm_engine demo_config idle)
   \<and> fst (scan_query alarm_engine demo_config idle) = Inr (js ''Error spike on **checkout-api**'')
   \<and> \<not> re_test re_healthy [] (js ''Error spike on **checkout-api**'')
   \<and> autonomousScan alarm_engine demo_config idle
       = snd (sendTelegram alarm_engine demo_config (JStr (TELEGRAM_CHAT_ID demo_config))
                (scan_alert (js ''Error spike on **checkout-api**'')) []
                (snd (scan_query alarm_engine demo_config idle)))
   \<and> scan_alert (js ''Error spike on **checkout-api**'')
       = scan_header @ js ''Error spike on <b>checkout-api</b>''
   \<and> length (sent (autonomousScan alarm_engine demo_config idle))
       = Suc (length (sent (snd (scan_query alarm_engine demo_config idle))))"
proof -
  have c1: "TELEGRAM_BOT_TOKEN demo_config \<noteq> []" by code_simp
  have c2: "TELEGRAM_CHAT_ID demo_config \<noteq> []" by code_simp
  have q1: "fst (scan_query calm_engine demo_config idle) = Inr (js ''All systems are normal.'')"
    by code_simp
  have t1: "re_test re_healthy [] (js ''All systems are normal.'')" by code_simp
  have q2: "fst (scan_query alarm_engine demo_config idle) = Inr (js ''Error spike on **checkout-api**'')"
    by code_simp
  have t2: "\<not> re_test re_healthy [] (js ''Error spike on **checkout-api**'')" by code_simp
  have a: "scan_alert (js ''Error spike on **checkout-api**'')
       = scan_header @ js ''Error spike on <b>checkout-api</b>''"
    by code_simp
  have n: "length (sent (autonomousScan alarm_engine demo_config idle))
       = Suc (length (sent (snd (scan_query alarm_engine demo_config idle))))"
    by code_simp
  note calm = autonomousScan_alert[OF c1 c2 q1]
  note alarm = autonomousScan_alert[OF c1 c2 q2]
  from calm t1 have r1: "autonomousScan calm_engine demo_config idle
                           = snd (scan_query calm_engine demo_config idle)"
    by blast
  from alarm t2 have r2: "autonomousScan alarm_engine demo_config idle
       = snd (sendTelegram alarm_engine demo_config (JStr (TELEGRAM_CHAT_ID demo_config))
                (scan_alert (js ''Error spike on **checkout-api**'')) []
                (snd (scan_query alarm_engine demo_config idle)))"
    by blast
  from c1 c2 q1 t1 r1 q2 t2 r2 a n show ?thesis by blast
qed

section \<open>The tool dispatcher\<close>

lemma handler_of_unknown: "name \<notin> JStr ` set tool_names \<Longrightarrow> handler_of e cfg hs name = None"
  by (simp add: handler_of_def tool_names_def)

lemma handler_of_known: "name \<in> JStr ` set tool_names \<Longrightarrow> handler_of e cfg hs name \<noteq> None"
  by (auto simp: handler_of_def tool_names_def)

lemma js_reply_keys:
  "js ''id'' \<noteq> js ''jsonrpc''" "js ''id'' \<noteq> js ''result''" "js ''result'' \<noteq> js ''jsonrpc''"
  "js ''error'' \<noteq> js ''jsonrpc''" "js ''error'' \<noteq> js ''id''" "js ''error'' \<noteq> js ''result''"
  "js ''success'' \<noteq> js ''error''"
  by (simp_all add: js_def)

lemma tool_reply_fields:
  "get (tool_reply e ident result) (js ''id'') = ident"
  "get (tool_reply e ident result) (js ''error'') = JUndef"
  "get (tool_reply e ident result) (js ''result'')
     = JObj [(js ''content'',
              JArr [JObj [(js ''type'', JStr (js ''text'')), (js ''text'', JStr (stringify e result))]])]"
  using js_reply_keys by (simp_all add: tool_reply_def)

lemma mcp_post_call:
  assumes "\<not> nullish req" "get req (js ''method'') = JStr (js ''tools/call'')"
    and "\<not> nullish (get req (js ''params''))"
  shows "mcp_post e cfg hs TOOLS req w =
           (Json (tool_reply e (get req (js ''id''))
                   (fst (call_tool e cfg hs (get (get req (js ''params'')) (js ''name''))
                           (get (get req (js ''params'')) (js ''arguments'')) w))),
            snd (call_tool e cfg hs (get (get req (js ''params'')) (js ''name''))
                   (get (get req (js ''params'')) (js ''arguments'')) w))"
proof -
  have m: "JStr (js ''tools/call'') \<noteq> JStr (js ''initialize'')"
    "JStr (js ''tools/call'') \<noteq> JStr (js ''tools/list'')"
    by (simp_all add: js_def)
  show ?thesis using assms m by (simp add: mcp_post_def Let_def split: prod.splits)
qed

text \<open>
  C7: for every \<open>tools/call\<close> invocation whose tool name is not in the fixed catalog, the
  dispatcher answers with a result (not a JSON-RPC error) whose text is the serialised
  object \<open>{ error: "Unknown tool: <name>" }\<close>, mirrors the request id, and leaves the
  world as it was: no handler runs and no request is sent.
\<close>

theorem unknown_tool:
  assumes "\<not> nullish req" "get req (js ''method'') = JStr (js ''tools/call'')"
    and "\<not> nullish (get req (js ''params''))"
    and "get (get req (js ''params'')) (js ''name'') \<notin> JStr ` set tool_names"
  shows "mcp_post e cfg hs TOOLS req w =
           (Json (tool_reply e (get req (js ''id''))
                   (JObj [(js ''error'',
                           JStr (js ''Unknown tool: ''
                                 @ to_str e (get (get req (js ''params'')) (js ''name''))))])), w)
         \<and> get (tool_reply e (get req (js ''id''))
                   (JObj [(js ''error'',
                           JStr (js ''Unknown tool: ''
                                 @ to_str e (get (get req (js ''params'')) (js ''name''))))]))
               (js ''id'') = get req (js ''id'')
         \<and> get (tool_reply e (get req (js ''id''))
                   (JObj [(js ''error'',
                           JStr (js ''Unknown tool: ''
                                 @ to_str e (get (get req (js ''params'')) (js ''name''))))]))
               (js ''error'') = JUndef
         \<and> get (tool_reply e (get req (js ''id''))
                   (JObj [(js ''error'',
                           JStr (js ''Unknown tool: ''
                                 @ to_str e (get (get req (js ''params'')) (js ''name''))))]))
               (js ''result'')
             = JObj [(js ''content'',
                 JArr [JObj [(js ''type'', JStr (js ''text'')),
                   (js ''text'', JStr (stringify e
                      (JObj [(js ''error'',
                           JStr (js ''Unknown tool: ''
                                 @ to_str e (get (get req (js ''params'')) (js ''name''))))])))]])]"
proof -
  have "call_tool e cfg hs (get (get req (js ''params'')) (js ''name''))
          (get (get req (js ''params'')) (js ''arguments'')) w
        = (JObj [(js ''error'',
                  JStr (js ''Unknown tool: ''
                        @ to_str e (get (get req (js ''params'')) (js ''name''))))], w)"
    using handler_of_unknown[OF assms(4)] by (simp add: call_tool_def)
  then show ?thesis
    using mcp_post_call[OF assms(1,2,3), of e cfg hs TOOLS w] tool_reply_fields by simp
qed

theorem unknown_tool_witness:
  "\<not> nullish unknown_call
   \<and> get unknown_call (js ''method'') = JStr (js ''tools/call'')
   \<and> \<not> nullish (get unknown_call (js ''params''))
   \<and> get (get unknown_call (js ''params'')) (js ''name'') \<notin> JStr ` set tool_names
   \<and> mcp_post offline demo_config idle_handlers JNull unknown_call idle
       = (Json (tool_reply offline (JNum 7)
                  (JObj [(js ''error'', JStr (js ''Unknown tool: launch_missiles''))])), idle)"
proof -
  have h1: "\<not> nullish unknown_call" by code_simp
  have h2: "get unknown_call (js ''method'') = JStr (js ''tools/call'')" by code_simp
  have h3: "\<not> nullish (get unknown_call (js ''params''))" by code_simp
  have h4: "get (get unknown_call (js ''params'')) (js ''name'') \<notin> JStr ` set tool_names"
    by code_simp
  have g1: "get unknown_call (js ''id'') = JNum 7" by code_simp
  have g2: "get (get unknown_call (js ''params'')) (js ''name'') = JStr (js ''launch_missiles'')"
    by code_simp
  have g3: "js ''Unknown tool: '' @ to_str offline (JStr (js ''launch_missiles''))
              = js ''Unknown tool: launch_missiles''"
    by code_simp
  note t = unknown_tool[OF h1 h2 h3 h4, of offline demo_config idle_handlers JNull idle,
      THEN conjunct1]
  have "mcp_post offline demo_config idle_handlers JNull unknown_call idle
       = (Json (tool_reply offline (JNum 7)
                  (JObj [(js ''error'', JStr (js ''Unknown tool: launch_missiles''))])), idle)"
    using t unfolding g1 g2 g3 .
  with h1 h2 h3 h4 show ?thesis by blast
qed

text \<open>
  C6, as the claim states it, fails in one part: the object the dispatcher builds for a
  handler that throws is \<open>{ error: err.message }\<close>, which has no \<open>success\<close> property. Here
  \<open>ask_apollo\<close> throws because the reasoning engine cannot be reached.
\<close>

theorem handler_failure_counterexample:
  "fst (mcp_post offline demo_config idle_handlers JNull ask_call idle)
     = Json (tool_reply offline (JNum 8) (JObj [(js ''error'', JStr (js ''fetch failed''))]))
   \<and> get (JObj [(js ''error'', JStr (js ''fetch failed''))]) (js ''success'') = JUndef
   \<and> get (JObj [(js ''error'', JStr (js ''fetch failed''))]) (js ''success'') \<noteq> JBool False"
  by code_simp


text \<open>
  C6 (amended): for every \<open>tools/call\<close> invocation whose named handler throws an error,
  the dispatcher catches the error and answers with a normal protocol-level result,
  mirroring the request id, whose text is the serialised object \<open>{ error: <message> }\<close>:
  an error message, with no \<open>success\<close> property; the response carries a result, not a
  JSON-RPC error.
\<close>

theorem handler_failure:
  assumes "\<not> nullish req" "get req (js ''method'') = JStr (js ''tools/call'')"
    and "\<not> nullish (get req (js ''params''))"
    and "handler_of e cfg hs (get (get req (js ''params'')) (js ''name'')) = Some h"
    and "fst (h (get (get req (js ''params'')) (js ''arguments'')) w) = Inl err"
  shows "mcp_post e cfg hs TOOLS req w =
           (Json (tool_reply e (get req (js ''id'')) (JObj [(js ''error'', JStr err)])),
            snd (h (get (get req (js ''params'')) (js ''arguments'')) w))
         \<and> get (tool_reply e (get req (js ''id'')) (JObj [(js ''error'', JStr err)])) (js ''id'')
             = get req (js ''id'')
         \<and> get (tool_reply e (get req (js ''id'')) (JObj [(js ''error'', JStr err)])) (js ''error'')
             = JUndef
         \<and> get (tool_reply e (get req (js ''id'')) (JObj [(js ''error'', JStr err)])) (js ''result'')
             = JObj [(js ''content'',
                 JArr [JObj [(js ''type'', JStr (js ''text'')),
                   (js ''text'', JStr (stringify e (JObj [(js ''error'', JStr err)])))]])]
         \<and> get (JObj [(js ''error'', JStr err)]) (js ''error'') = JStr err
         \<and> get (JObj [(js ''error'', JStr err)]) (js ''success'') = JUndef"
proof -
  obtain w1 where r: "h (get (get req (js ''params'')) (js ''arguments'')) w = (Inl err, w1)"
    using assms(5) by (cases "h (get (get req (js ''params'')) (js ''arguments'')) w") auto
  have "call_tool e cfg hs (get (get req (js ''params'')) (js ''name''))
          (get (get req (js ''params'')) (js ''arguments'')) w
        = (JObj [(js ''error'', JStr err)], w1)"
    using assms(4) r by (simp add: call_tool_def)
  then show ?thesis
    using mcp_post_call[OF assms(1,2,3), of e cfg hs TOOLS w] tool_reply_fields r js_reply_keys
    by simp
qed


theorem handler_failure_witness:
  "\<not> nullish ask_call
   \<and> get ask_call (js ''method'') = JStr (js ''tools/call'')
   \<and> \<not> nullish (get ask_call (js ''params''))
   \<and> handler_of offline demo_config idle_handlers (get (get ask_call (js ''params'')) (js ''name''))
       = Some (askApollo offline demo_config)
   \<and> fst (askApollo offline demo_config (get (get ask_call (js ''params'')) (js ''arguments'')) idle)
       = Inl (js ''fetch failed'')
   \<and> fst (mcp_post offline demo_config idle_handlers JNull ask_call idle)
       = Json (tool_reply offline (JNum 8) (JObj [(js ''error'', JStr (js ''fetch failed''))]))"
proof -
  have h1: "\<not> nullish ask_call" by code_simp
  have h2: "get ask_call (js ''method'') = JStr (js ''tools/call'')" by code_simp
  have h3: "\<not> nullish (get ask_call (js ''params''))" by code_simp
  have g2: "get (get ask_call (js ''params'')) (js ''name'') = JStr (js ''ask_apollo'')"
    by code_simp
  have h4: "handler_of offline demo_config idle_handlers (get (get ask_call (js ''params'')) (js ''name''))
       = Some (askApollo offline demo_config)"
    unfolding g2 by (simp add: handler_of_def js_def)
  have h5: "fst (askApollo offline demo_config (get (get ask_call (js ''params'')) (js ''arguments'')) idle)
       = Inl (js ''fetch failed'')"
    by code_simp
  have g1: "get ask_call (js ''id'') = JNum 8" by code_simp
  note t = handler_failure[OF h1 h2 h3 h4 h5, of JNull, THEN conjunct1]
  have "fst (mcp_post offline demo_config idle_handlers JNull ask_call idle)
       = Json (tool_reply offline (JNum 8) (JObj [(js ''error'', JStr (js ''fetch failed''))]))"
    using t unfolding g1 by simp
  with h1 h2 h3 h4 h5 show ?thesis by blast
qed

section \<open>The health check\<close>

text \<open>
  C2, as the claim states it, fails: \<open>runHealthCheck\<close> compares the maximum error rate of
  the current window with 2, not the average. With an average of 1%, a maximum of 5%
  and a p99 latency of 100ms the status is \<open>DEGRADED\<close>.
\<close>

theorem runHealthCheck_average_counterexample:
  "fst (esqlQuery spike_metrics demo_config (recent_query (js ''checkout-api'')) idle)
     = Inr [JObj [(js ''avg_error_rate'', JNum 1), (js ''max_error_rate'', JNum 5),
                  (js ''avg_latency'', JNum 100), (js ''max_connections'', JNum 10),
                  (js ''sample_count'', JNum 20), (js ''service'', JStr (js ''checkout-api''))]]
   \<and> (1 :: rat) < 2 \<and> (100 :: rat) < 500
   \<and> get (result_of (fst (runHealthCheck spike_metrics demo_config health_args idle))) (js ''status'')
       = JStr (js ''DEGRADED'')"
  by code_simp



lemma fixed_numeric: "numeric v \<Longrightarrow> \<exists>s. fixed e d (or0 v) = Inr s"
  by (auto simp: numeric_def fixed_def split: jv.splits)

lemma or0_num: "or0 (JNum m) = JNum m"
  by (simp add: or0_def or_else_def)

lemma numeric_num: "numeric (JNum m)"
  by (simp add: numeric_def or0_num)

text \<open>
  C2 (amended): for every service whose health-verification query results have a
  current-window maximum error rate below 2% and an average p99 latency below 500ms
  (the other aggregates of the report being numbers or \<open>null\<close>), \<open>run_health_check\<close> returns
  a result with status \<open>HEALTHY\<close>.
\<close>

theorem runHealthCheck_healthy:
  assumes "ELASTIC_URL cfg \<noteq> []" "ELASTIC_API_KEY cfg \<noteq> []" "\<not> nullish params"
    and "fst (esqlQuery e cfg (recent_query (to_str e (get params (js ''service'')))) w) = Inr recentRows"
    and "fst (esqlQuery e cfg (baseline_query (to_str e (get params (js ''service''))))
                (snd (esqlQuery e cfg (recent_query (to_str e (get params (js ''service'')))) w)))
           = Inr baselineRows"
    and "get (first_row recentRows) (js ''max_error_rate'') = JNum m" "m < 2"
    and "get (first_row recentRows) (js ''avg_latency'') = JNum l" "l < 500"
    and "numeric (get (first_row recentRows) (js ''avg_error_rate''))"
    and "numeric (get (first_row baselineRows) (js ''baseline_error_rate''))"
    and "numeric (get (first_row baselineRows) (js ''baseline_latency''))"
  shows "\<exists>res. fst (runHealthCheck e cfg params w) = Inr res
               \<and> get res (js ''status'') = JStr (js ''HEALTHY'')"
proof -
  let ?S = "to_str e (get params (js ''service''))"
  obtain w1 where q1: "esqlQuery e cfg (recent_query ?S) w = (Inr recentRows, w1)"
    using assms(4) by (cases "esqlQuery e cfg (recent_query ?S) w") auto
  obtain w2 where q2: "esqlQuery e cfg (baseline_query ?S) w1 = (Inr baselineRows, w2)"
    using assms(5) q1 by (cases "esqlQuery e cfg (baseline_query ?S) w1") auto
  obtain f1 where f1: "fixed e 2 (or0 (get (first_row recentRows) (js ''avg_error_rate''))) = Inr f1"
    using fixed_numeric[OF assms(10)] by blast
  obtain f2 where f2: "fixed e 2 (or0 (get (first_row recentRows) (js ''max_error_rate''))) = Inr f2"
    using fixed_numeric[OF numeric_num, of e 2 m] assms(6) by auto
  obtain f3 where f3: "fixed e 0 (or0 (get (first_row recentRows) (js ''avg_latency''))) = Inr f3"
    using fixed_numeric[OF numeric_num, of e 0 l] assms(8) by auto
  obtain f4 where f4: "fixed e 2 (or0 (get (first_row baselineRows) (js ''baseline_error_rate''))) = Inr f4"
    using fixed_numeric[OF assms(11)] by blast
  obtain f5 where f5: "fixed e 0 (or0 (get (first_row baselineRows) (js ''baseline_latency''))) = Inr f5"
    using fixed_numeric[OF assms(12)] by blast
  have h: "num_less e (or0 (get (first_row recentRows) (js ''max_error_rate''))) 2"
      "num_less e (or0 (get (first_row recentRows) (js ''avg_latency''))) 500"
    using assms(6-9) by (simp_all add: num_less_def or0_num)
  have k: "js ''status'' \<noteq> js ''success''" "js ''status'' \<noteq> js ''service''"
    "js ''status'' \<noteq> js ''recovered''" "js ''status'' \<noteq> js ''current''"
    "js ''status'' \<noteq> js ''baseline''" "js ''status'' \<noteq> js ''verdict''"
    by (simp_all add: js_def)
  show ?thesis
    using assms(1-3) q1 q2 f1 f2 f3 f4 f5 h k
    by (simp add: runHealthCheck_def Let_def bindE_def)
qed

theorem runHealthCheck_healthy_witness:
  "ELASTIC_URL demo_config \<noteq> [] \<and> ELASTIC_API_KEY demo_config \<noteq> [] \<and> \<not> nullish health_args
   \<and> fst (esqlQuery calm_metrics demo_config
              (recent_query (to_str calm_metrics (get health_args (js ''service'')))) idle)
       = Inr [calm_row]
   \<and> fst (esqlQuery calm_metrics demo_config
              (baseline_query (to_str calm_metrics (get health_args (js ''service''))))
              (snd (esqlQuery calm_metrics demo_config
                     (recent_query (to_str calm_metrics (get health_args (js ''service'')))) idle)))
       = Inr [base_row]
   \<and> get (first_row [calm_row]) (js ''max_error_rate'') = JNum 1 \<and> (1 :: rat) < 2
   \<and> get (first_row [calm_row]) (js ''avg_latency'') = JNum 100 \<and> (100 :: rat) < 500
   \<and> numeric (get (first_row [calm_row]) (js ''avg_error_rate''))
   \<and> numeric (get (first_row [base_row]) (js ''baseline_error_rate''))
   \<and> numeric (get (first_row [base_row]) (js ''baseline_latency''))
   \<and> get (result_of (fst (runHealthCheck calm_metrics demo_config health_args idle))) (js ''status'')
       = JStr (js ''HEALTHY'')"
proof -
  have h1: "ELASTIC_URL demo_config \<noteq> []" by code_simp
  have h2: "ELASTIC_API_KEY demo_config \<noteq> []" by code_simp
  have h3: "\<not> nullish health_args" by code_simp
  have h4: "fst (esqlQuery calm_metrics demo_config
              (recent_query (to_str calm_metrics (get health_args (js ''service'')))) idle)
       = Inr [calm_row]" by code_simp
  have h5: "fst (esqlQuery calm_metrics demo_config
              (baseline_query (to_str calm_metrics (get health_args (js ''service''))))
              (snd (esqlQuery calm_metrics demo_config
                     (recent_query (to_str calm_metrics (get health_args (js ''service'')))) idle)))
       = Inr [base_row]" by code_simp
  have h6: "get (first_row [calm_row]) (js ''max_error_rate'') = JNum 1" by code_simp
  have h7: "(1 :: rat) < 2" by simp
  have h8: "get (first_row [calm_row]) (js ''avg_latency'') = JNum 100" by code_simp
  have h9: "(100 :: rat) < 500" by simp
  have h10: "numeric (get (first_row [calm_row]) (js ''avg_error_rate''))" by code_simp
  have h11: "numeric (get (first_row [base_row]) (js ''baseline_error_rate''))" by code_simp
  have h12: "numeric (get (first_row [base_row]) (js ''baseline_latency''))" by code_simp
  from runHealthCheck_healthy[OF h1 h2 h3 h4 h5 h6 h7 h8 h9 h10 h11 h12]
  obtain res where "fst (runHealthCheck calm_metrics demo_config health_args idle) = Inr res"
    "get res (js ''status'') = JStr (js ''HEALTHY'')" by blast
  then have "get (result_of (fst (runHealthCheck calm_metrics demo_config health_args idle)))
               (js ''status'') = JStr (js ''HEALTHY'')"
    by (simp add: result_of_def)
  with h1 h2 h3 h4 h5 h6 h7 h8 h9 h10 h11 h12 show ?thesis by blast
qed

section \<open>The rollback handler\<close>










end
